theory Spec2Isabelle
  imports Complex_Main
begin

section \<open>Tensors, slices and errors\<close>

text \<open>
  The streaming engine of \<^verbatim>\<open>gui.py\<close> works on one-dimensional tensors of samples. A
  tensor is a list here and a sample is a real number (or any type, where the code only
  moves samples around). Every exception the code can raise is a value of \<open>error\<close>.
\<close>

datatype error = NameError | RuntimeError | TypeError | ValueError | ZeroDivisionError

text \<open>
  Python slice bounds with a negated length. \<^verbatim>\<open>x[:-b]\<close> stops at \<open>len - b\<close>, clipped at 0,
  but \<^verbatim>\<open>-0\<close> is \<open>0\<close>, so for \<open>b = 0\<close> the slice is \<^verbatim>\<open>x[:0]\<close>, the empty one. \<^verbatim>\<open>x[-n:]\<close>
  starts at \<open>len - n\<close>, clipped at 0, and for \<open>n = 0\<close> it is \<^verbatim>\<open>x[0:]\<close>, the whole tensor.
\<close>

definition neg_stop :: "nat \<Rightarrow> nat \<Rightarrow> nat" where
  "neg_stop len b = (if b = 0 then 0 else len - b)"

definition neg_start :: "nat \<Rightarrow> nat \<Rightarrow> nat" where
  "neg_start len n = (if n = 0 then 0 else len - n)"

text \<open>
  \<^verbatim>\<open>x[lo:hi] = src\<close> on a tensor, for \<open>lo \<le> hi \<le> len\<close>: the source is copied when it has
  the size of the slice, a source of one element is broadcast over the slice, and any
  other size raises RuntimeError. The tensor never changes its length.
\<close>

definition slice_assign :: "'a list \<Rightarrow> nat \<Rightarrow> nat \<Rightarrow> 'a list \<Rightarrow> error + 'a list" where
  "slice_assign x lo hi src =
     (if length src = hi - lo then Inr (take lo x @ src @ drop hi x)
      else if length src = 1 then Inr (take lo x @ replicate (hi - lo) (hd src) @ drop hi x)
      else Inl RuntimeError)"

section \<open>Ring-buffer update\<close>

text \<open>
  A rolling buffer is moved in two statements of \<^verbatim>\<open>audio_callback\<close>:
  \<^verbatim>\<open>buf[:-shift] = buf[shift:].clone()\<close> and, later, \<^verbatim>\<open>buf[-m:] = src\<close>.
\<close>

definition shift_left :: "'a list \<Rightarrow> nat \<Rightarrow> error + 'a list" where
  "shift_left buf block_frame =
     slice_assign buf 0 (neg_stop (length buf) block_frame) (drop block_frame buf)"

definition write_tail :: "'a list \<Rightarrow> nat \<Rightarrow> 'a list \<Rightarrow> error + 'a list" where
  "write_tail buf m src = slice_assign buf (neg_start (length buf) m) (length buf) src"

text \<open>
  Lines 871--876, the raw input: the shift is \<open>block_frame\<close> and the tail written is
  \<open>indata\<close>, over the last \<^verbatim>\<open>indata.shape[0]\<close> positions. \<open>indata\<close> is one block with the
  noise gate off and \<open>2 * zc\<close> samples longer with the gate on.
\<close>

definition update_input_wav :: "'a list \<Rightarrow> nat \<Rightarrow> 'a list \<Rightarrow> error + 'a list" where
  "update_input_wav input_wav block_frame indata =
     (case shift_left input_wav block_frame of
        Inl e \<Rightarrow> Inl e
      | Inr w \<Rightarrow> write_tail w (length indata) indata)"

text \<open>
  Lines 877--879 and 899--907, the 16 kHz input: the shift is \<open>block_frame_16k\<close> and
  the tail written is the resampled chunk less its first 160 samples, over the last
  \<open>block_frame_16k + 160\<close> positions with the input noise reduction on and over the
  last \<^verbatim>\<open>160 * (indata.shape[0] // zc + 1)\<close> without it. The resampler is outside the
  repository, so \<open>resampled\<close>, the chunk after \<^verbatim>\<open>[160:]\<close>, is an argument.
\<close>

definition update_input_wav_res ::
  "'a list \<Rightarrow> nat \<Rightarrow> bool \<Rightarrow> nat \<Rightarrow> nat \<Rightarrow> 'a list \<Rightarrow> error + 'a list" where
  "update_input_wav_res input_wav_res block_frame_16k I_noise_reduce indata_len zc resampled =
     (case shift_left input_wav_res block_frame_16k of
        Inl e \<Rightarrow> Inl e
      | Inr w \<Rightarrow>
          if I_noise_reduce then write_tail w (block_frame_16k + 160) resampled
          else if zc = 0 then Inl ZeroDivisionError
          else write_tail w (160 * (indata_len div zc + 1)) resampled)"

section \<open>Noise gate\<close>

text \<open>
  Lines 855--868. \<open>db\<close> is the row that
  \<^verbatim>\<open>librosa.amplitude_to_db(librosa.feature.rms(...)[:, 2:], ref=1.0)[0]\<close> returns for the
  concatenated signal; librosa is not part of the repository, so its result is an
  argument. numpy clips the bounds of \<^verbatim>\<open>indata[i*zc:(i+1)*zc] = 0\<close> to the array.
\<close>

definition zero_region :: "real list \<Rightarrow> nat \<Rightarrow> nat \<Rightarrow> real list" where
  "zero_region y lo hi =
     (let l = min lo (length y); h = max l (min hi (length y))
      in take l y @ replicate (h - l) 0 @ drop h y)"

fun gate_loop :: "nat \<Rightarrow> bool list \<Rightarrow> nat \<Rightarrow> real list \<Rightarrow> real list" where
  "gate_loop zc [] i y = y"
| "gate_loop zc (below # rest) i y =
     gate_loop zc rest (Suc i) (if below then zero_region y (i * zc) (Suc i * zc) else y)"

text \<open>The gated branch: the new lookback tail and the processed input segment.\<close>

definition gate_indata ::
  "real \<Rightarrow> nat \<Rightarrow> real list \<Rightarrow> real list \<Rightarrow> real list \<Rightarrow> error + (real list \<times> real list)" where
  "gate_indata threhold zc rms_buffer indata db =
     (let y = rms_buffer @ indata;
          db_threhold = map (\<lambda>d. d < threhold) db
      in case slice_assign rms_buffer 0 (length rms_buffer)
                (drop (neg_start (length y) (4 * zc)) y) of
           Inl e \<Rightarrow> Inl e
         | Inr rms_buffer' \<Rightarrow>
             Inr (rms_buffer',
                  drop (zc div 2)
                    (gate_loop zc db_threhold 0 (drop (2 * zc - zc div 2) y))))"

definition process_indata ::
  "real \<Rightarrow> nat \<Rightarrow> real list \<Rightarrow> real list \<Rightarrow> real list \<Rightarrow> error + (real list \<times> real list)" where
  "process_indata threhold zc rms_buffer indata db =
     (if threhold > - 60 then gate_indata threhold zc rms_buffer indata db
      else Inr (rms_buffer, indata))"

section \<open>Elementwise operations\<close>

text \<open>
  A binary operation on two tensors broadcasts a tensor of one element over the other
  and raises on any other difference of sizes. The in-place form \<^verbatim>\<open>x[:n] op= v\<close> works
  on the first \<open>n\<close> elements of \<open>x\<close> (fewer when \<open>x\<close> is shorter) and can only broadcast
  \<open>v\<close>.
\<close>

definition tensor_op :: "(real \<Rightarrow> real \<Rightarrow> real) \<Rightarrow> real list \<Rightarrow> real list \<Rightarrow> error + real list" where
  "tensor_op f a b =
     (if length a = length b then Inr (map2 f a b)
      else if length b = 1 then Inr (map (\<lambda>u. f u (hd b)) a)
      else if length a = 1 then Inr (map (\<lambda>v. f (hd a) v) b)
      else Inl RuntimeError)"

definition inplace_head :: "(real \<Rightarrow> real \<Rightarrow> real) \<Rightarrow> real list \<Rightarrow> nat \<Rightarrow> real list \<Rightarrow> error + real list" where
  "inplace_head f x n v =
     (if length v = length (take n x) then Inr (map2 f (take n x) v @ drop n x)
      else if length v = 1 then Inr (map (\<lambda>u. f u (hd v)) (take n x) @ drop n x)
      else Inl RuntimeError)"

section \<open>Fade windows and the linear crossfade\<close>

text \<open>
  Lines 779--793 of \<^verbatim>\<open>start_vc\<close>. \<^verbatim>\<open>torch.linspace(0.0, 1.0, steps)\<close> is the single
  value 0 for one step and \<open>i / (steps - 1)\<close> otherwise. The window is computed in
  32-bit floating point; the model computes it in the reals.
\<close>

definition linspace01 :: "nat \<Rightarrow> real list" where
  "linspace01 steps =
     (if steps = 1 then [0] else map (\<lambda>i. real i / real (steps - 1)) [0..<steps])"

definition fade_in_window :: "nat \<Rightarrow> real list" where
  "fade_in_window steps = map (\<lambda>u. (sin (0.5 * pi * u))\<^sup>2) (linspace01 steps)"

definition fade_out_window :: "nat \<Rightarrow> real list" where
  "fade_out_window steps = map (\<lambda>u. 1 - u) (fade_in_window steps)"

text \<open>
  The crossfade of lines 891--894 (denoiser) and 989--992 (SOLA):
  \<^verbatim>\<open>x[:n] *= fade_in\<close> and then \<^verbatim>\<open>x[:n] += old * fade_out\<close>.
\<close>

definition linear_crossfade ::
  "real list \<Rightarrow> real list \<Rightarrow> real list \<Rightarrow> real list \<Rightarrow> nat \<Rightarrow> error + real list" where
  "linear_crossfade x old fade_in fade_out n =
     (case inplace_head (*) x n fade_in of
        Inl e \<Rightarrow> Inl e
      | Inr x1 \<Rightarrow>
          (case tensor_op (*) old fade_out of
             Inl e \<Rightarrow> Inl e
           | Inr t \<Rightarrow> inplace_head (+) x1 n t))"

section \<open>Phase vocoder\<close>

text \<open>
  \<^verbatim>\<open>phase_vocoder(a, b, fade_out, fade_in)\<close>, lines 34--59. \<^verbatim>\<open>torch.fft.rfft\<close> is the
  one-sided discrete Fourier transform and \<^verbatim>\<open>torch.angle\<close> the argument in
  \<open>(-\<pi>, \<pi>]\<close>, 0 for the number 0. The callback passes four tensors of
  \<open>sola_buffer_frame\<close> samples; the model raises on any other shapes.
\<close>

definition rfft :: "real list \<Rightarrow> complex list" where
  "rfft x =
     (let n = length x
      in map (\<lambda>k. \<Sum>j \<leftarrow> [0..<n].
                  of_real (x ! j) * cis (- 2 * pi * real k * real j / real n))
           [0..<n div 2 + 1])"

definition wrap_phase :: "real \<Rightarrow> real" where
  "wrap_phase d = d - 2 * pi * of_int \<lfloor>d / 2 / pi + 0.5\<rfloor>"

definition pv_window :: "real list \<Rightarrow> real list \<Rightarrow> real list" where
  "pv_window fade_out fade_in = map2 (\<lambda>u v. sqrt (u * v)) fade_out fade_in"

text \<open>The tensor \<^verbatim>\<open>deltaphase\<close> after line 49, one entry per frequency bin.\<close>

definition pv_deltaphase :: "real list \<Rightarrow> real list \<Rightarrow> real list \<Rightarrow> real list \<Rightarrow> real list" where
  "pv_deltaphase a b fade_out fade_in =
     (let window = pv_window fade_out fade_in;
          fa = rfft (map2 (*) a window);
          fb = rfft (map2 (*) b window);
          phia = map Arg fa;
          phib = map Arg fb
      in map (\<lambda>d. wrap_phase d) (map2 (\<lambda>pb pa. pb - pa) phib phia))"

definition phase_vocoder ::
  "real list \<Rightarrow> real list \<Rightarrow> real list \<Rightarrow> real list \<Rightarrow> error + real list" where
  "phase_vocoder a b fade_out fade_in =
     (let n = length a
      in if n = 0 \<or> length b \<noteq> n \<or> length fade_out \<noteq> n \<or> length fade_in \<noteq> n
         then Inl RuntimeError
         else
           let window = pv_window fade_out fade_in;
               fa = rfft (map2 (*) a window);
               fb = rfft (map2 (*) b window);
               absab0 = map2 (\<lambda>u v. cmod u + cmod v) fa fb;
               absab = map (\<lambda>k. if k = 0 \<or> (even n \<and> k = n div 2)
                                 then absab0 ! k else 2 * (absab0 ! k)) [0..<n div 2 + 1];
               phia = map Arg fa;
               deltaphase = pv_deltaphase a b fade_out fade_in;
               w = map (\<lambda>k. 2 * pi * real k + deltaphase ! k) [0..<n div 2 + 1]
           in Inr (map (\<lambda>i. a ! i * (fade_out ! i)\<^sup>2 + b ! i * (fade_in ! i)\<^sup>2
                            + (\<Sum>k \<leftarrow> [0..<n div 2 + 1].
                                 absab ! k * cos (w ! k * (real i / real n) + phia ! k))
                              * (window ! i) / real n)
                      [0..<n]))"

section \<open>Envelope mixing\<close>

text \<open>
  Lines 935--968. \<open>rms_interp y size\<close> stands for
  \<^verbatim>\<open>F.interpolate(librosa.feature.rms(y, 4*zc, zc), size, linear, align_corners)\<close>, the
  work of two libraries outside the repository; \<^verbatim>\<open>[0, 0, :-1]\<close> drops its last value.
  \<open>func\<close> is \<^verbatim>\<open>self.function\<close>, and \<open>input_wav\<close> is the rolling input (denoised when the
  input noise reduction is on) from \<open>extra_frame\<close> onwards.
\<close>

definition envelope_mix ::
  "real \<Rightarrow> string \<Rightarrow> (real list \<Rightarrow> nat \<Rightarrow> real list) \<Rightarrow> real list \<Rightarrow> real list
     \<Rightarrow> error + real list" where
  "envelope_mix rms_mix_rate func rms_interp input_wav infer_wav =
     (if rms_mix_rate < 1 \<and> func = ''vc'' then
        let rms1 = butlast (rms_interp (take (length infer_wav) input_wav)
                              (length infer_wav + 1));
            rms2 = map (\<lambda>u. max u (1 / 1000))
                     (butlast (rms_interp infer_wav (length infer_wav + 1)))
        in case tensor_op (/) rms1 rms2 of
             Inl e \<Rightarrow> Inl e
           | Inr q \<Rightarrow>
               inplace_head (*) infer_wav (length infer_wav)
                 (map (\<lambda>u. u powr (1 - rms_mix_rate)) q)
      else Inr infer_wav)"

section \<open>SOLA offset search and stitching\<close>

text \<open>
  \<^verbatim>\<open>F.conv1d\<close> of a signal with a kernel, both one-dimensional, no padding: the sliding
  inner product. The kernel must be non-empty and no longer than the signal.
\<close>

definition conv1d :: "real list \<Rightarrow> real list \<Rightarrow> error + real list" where
  "conv1d inp weight =
     (if length weight = 0 \<or> length inp < length weight then Inl RuntimeError
      else Inr (map (\<lambda>off. sum_list (map2 (*) (take (length weight) (drop off inp)) weight))
                  [0..<length inp - length weight + 1]))"

text \<open>
  \<^verbatim>\<open>torch.argmax\<close> of a one-dimensional tensor is the index of the first maximal value;
  \<^verbatim>\<open>torch.max\<close> with no dimension is the maximal value itself, a tensor of no
  dimension. Both raise on an empty tensor.
\<close>

fun argmax_from :: "real list \<Rightarrow> nat \<Rightarrow> nat \<Rightarrow> real \<Rightarrow> nat" where
  "argmax_from [] i best m = best"
| "argmax_from (v # vs) i best m =
     (if m < v then argmax_from vs (Suc i) i v else argmax_from vs (Suc i) best m)"

definition torch_argmax :: "real list \<Rightarrow> error + nat" where
  "torch_argmax t = (case t of [] \<Rightarrow> Inl RuntimeError | v # vs \<Rightarrow> Inr (argmax_from vs 1 0 v))"

definition torch_max :: "real list \<Rightarrow> error + real" where
  "torch_max t = (case t of [] \<Rightarrow> Inl RuntimeError | v # vs \<Rightarrow> Inr (foldl max v vs))"

text \<open>
  Lines 970--986. On \<^verbatim>\<open>darwin\<close> the code unpacks the result of \<^verbatim>\<open>torch.max\<close> into two
  names; iterating over a tensor of no dimension raises TypeError.
\<close>

definition sola_offset :: "string \<Rightarrow> real list \<Rightarrow> real list \<Rightarrow> nat \<Rightarrow> nat \<Rightarrow> error + nat" where
  "sola_offset sys_platform infer_wav sola_buffer sola_buffer_frame sola_search_frame =
     (let conv_input = take (sola_buffer_frame + sola_search_frame) infer_wav
      in case conv1d conv_input sola_buffer of
           Inl e \<Rightarrow> Inl e
         | Inr cor_nom \<Rightarrow>
             (case conv1d (map (\<lambda>u. u\<^sup>2) conv_input) (replicate sola_buffer_frame 1) of
                Inl e \<Rightarrow> Inl e
              | Inr cor_sq \<Rightarrow>
                  (case tensor_op (/) cor_nom (map (\<lambda>u. sqrt (u + 1 / 10 ^ 8)) cor_sq) of
                     Inl e \<Rightarrow> Inl e
                   | Inr cor \<Rightarrow>
                       if sys_platform = ''darwin''
                       then (case torch_max cor of Inl e \<Rightarrow> Inl e | Inr m \<Rightarrow> Inl TypeError)
                       else torch_argmax cor)))"

text \<open>
  Lines 987--1009: the block is shifted by the offset, its head is blended with the
  previous tail, the new tail is kept and the first \<open>block_frame\<close> samples are the
  output. \<open>privateuseone\<close> says whether the device's name contains that word.
\<close>

definition sola_stitch ::
  "string \<Rightarrow> bool \<Rightarrow> bool \<Rightarrow> real list \<Rightarrow> real list \<Rightarrow> real list \<Rightarrow> real list
     \<Rightarrow> nat \<Rightarrow> nat \<Rightarrow> nat \<Rightarrow> error + (real list \<times> real list)" where
  "sola_stitch sys_platform privateuseone use_pv infer_wav sola_buffer fade_in
       fade_out block_frame sola_buffer_frame sola_search_frame =
     (case sola_offset sys_platform infer_wav sola_buffer sola_buffer_frame
             sola_search_frame of
        Inl e \<Rightarrow> Inl e
      | Inr off \<Rightarrow>
          (case (if privateuseone \<or> \<not> use_pv
                 then linear_crossfade (drop off infer_wav) sola_buffer fade_in
                        fade_out sola_buffer_frame
                 else (case phase_vocoder sola_buffer
                              (take sola_buffer_frame (drop off infer_wav))
                              fade_out fade_in of
                         Inl e \<Rightarrow> Inl e
                       | Inr r \<Rightarrow>
                           slice_assign (drop off infer_wav) 0
                             (min sola_buffer_frame (length (drop off infer_wav))) r)) of
             Inl e \<Rightarrow> Inl e
           | Inr w \<Rightarrow>
               (case slice_assign sola_buffer 0 (length sola_buffer)
                       (take sola_buffer_frame (drop block_frame w)) of
                  Inl e \<Rightarrow> Inl e
                | Inr sola_buffer' \<Rightarrow> Inr (take block_frame w, sola_buffer'))))"

section \<open>Pitch worker pool\<close>

text \<open>
  \<^verbatim>\<open>Harvest.run\<close>, lines 68--83. A job is the tuple \<^verbatim>\<open>(idx, x, res_f0, n_cpu, ts)\<close>;
  \<open>res_f0\<close> is a reference to a dictionary shared between processes, so the pool's
  state holds the dictionaries by reference, and the output queue. \<open>harvest\<close> stands
  for \<^verbatim>\<open>pyworld.harvest\<close> with the fixed parameters of the call and returns the contour.
\<close>

record 'f pool =
  res_maps :: "nat \<Rightarrow> (int \<rightharpoonup> 'f)"
  opt_q :: "real list"

definition harvest_job ::
  "(real list \<Rightarrow> 'f) \<Rightarrow> int \<times> real list \<times> nat \<times> int \<times> real \<Rightarrow> 'f pool \<Rightarrow> 'f pool" where
  "harvest_job harvest job st =
     (case job of (idx, x, res_f0, n_cpu, ts) \<Rightarrow>
        let f0 = harvest x;
            d = (res_maps st res_f0)(idx \<mapsto> f0);
            st1 = st\<lparr>res_maps := (res_maps st)(res_f0 := d)\<rparr>
        in if int (card (dom d)) \<ge> n_cpu then st1\<lparr>opt_q := opt_q st1 @ [ts]\<rparr> else st1)"

text \<open>
  The loop of \<^verbatim>\<open>run\<close> never returns: it blocks on the input queue between jobs.
  \<open>harvest_run\<close> is the state after the jobs taken from the queue so far, one
  iteration after the other.
\<close>

fun harvest_run ::
  "(real list \<Rightarrow> 'f) \<Rightarrow> (int \<times> real list \<times> nat \<times> int \<times> real) list \<Rightarrow> 'f pool \<Rightarrow> 'f pool" where
  "harvest_run harvest [] st = st"
| "harvest_run harvest (job # jobs) st = harvest_run harvest jobs (harvest_job harvest job st)"

section \<open>Session start\<close>

text \<open>
  \<^verbatim>\<open>np.round\<close> rounds to the nearest integer and a half to the even neighbour.
\<close>

definition np_round :: "real \<Rightarrow> int" where
  "np_round u =
     (let f = \<lfloor>u\<rfloor>; d = u - of_int f
      in if d < 1 / 2 then f else if 1 / 2 < d then f + 1 else if even f then f else f + 1)"

text \<open>
  The buffer sizes and buffers that lines 718--793 of \<^verbatim>\<open>start_vc\<close> compute. The sample
  rate is what the model or the device reports. A sample rate below 100 makes \<open>zc\<close>
  zero and the first division raises; a negative size raises in the allocation.
\<close>

record session =
  zc :: int
  block_frame :: int
  block_frame_16k :: int
  crossfade_frame :: int
  sola_buffer_frame :: int
  sola_search_frame :: int
  extra_frame :: int
  input_wav :: "real list"
  input_wav_denoise :: "real list"
  input_wav_res :: "real list"
  rms_buffer :: "real list"
  sola_buffer :: "real list"
  nr_buffer :: "real list"
  output_buffer :: "real list"
  skip_head :: int
  return_length :: int
  fade_in :: "real list"
  fade_out :: "real list"

text \<open>
  A duration in samples, rounded to a whole number of \<open>zc\<close> units:
  \<^verbatim>\<open>int(np.round(t * samplerate / zc)) * zc\<close>. The product and the quotient are computed
  in double precision: \<open>fdiv t samplerate zc\<close> stands for the double they give. Rounding
  that double and multiplying the integers are exact.
\<close>

definition frame_count :: "(real \<Rightarrow> int \<Rightarrow> int \<Rightarrow> real) \<Rightarrow> real \<Rightarrow> int \<Rightarrow> int \<Rightarrow> int" where
  "frame_count fdiv t samplerate z = np_round (fdiv t samplerate z) * z"

text \<open>Lines 729 and 740--793: the derived sizes, the buffers and the fade windows.\<close>

definition alloc_session :: "int \<Rightarrow> int \<Rightarrow> int \<Rightarrow> int \<Rightarrow> error + session" where
  "alloc_session z bf cf ef =
     (let sbf = min cf (4 * z);
          ssf = z;
          n = ef + cf + ssf + bf
      in if n < 0 \<or> 160 * n div z < 0 then Inl RuntimeError
         else if 4 * z < 0 then Inl ValueError
         else if sbf < 0 then Inl RuntimeError
         else Inr \<lparr>
           zc = z,
           block_frame = bf,
           block_frame_16k = 160 * bf div z,
           crossfade_frame = cf,
           sola_buffer_frame = sbf,
           sola_search_frame = ssf,
           extra_frame = ef,
           input_wav = replicate (nat n) 0,
           input_wav_denoise = replicate (nat n) 0,
           input_wav_res = replicate (nat (160 * n div z)) 0,
           rms_buffer = replicate (nat (4 * z)) 0,
           sola_buffer = replicate (nat sbf) 0,
           nr_buffer = replicate (nat sbf) 0,
           output_buffer = replicate (nat n) 0,
           skip_head = ef div z,
           return_length = (bf + sbf + ssf) div z,
           fade_in = fade_in_window (nat sbf),
           fade_out = fade_out_window (nat sbf) \<rparr>)"

text \<open>Lines 718--793 as a whole, for the three durations of the configuration.\<close>

definition init_session ::
  "(real \<Rightarrow> int \<Rightarrow> int \<Rightarrow> real) \<Rightarrow> real \<Rightarrow> real \<Rightarrow> real \<Rightarrow> int \<Rightarrow> error + session" where
  "init_session fdiv blk_time xfade_time ext_time samplerate =
     (let z = samplerate div 100
      in if z = 0 then Inl ZeroDivisionError
         else alloc_session z (frame_count fdiv blk_time samplerate z)
                (frame_count fdiv xfade_time samplerate z)
                (frame_count fdiv ext_time samplerate z))"

section \<open>Control loop\<close>

text \<open>
  \<^verbatim>\<open>GUIConfig\<close>, the parameters of a session, with the defaults of its constructor;
  \<open>pool_size\<close> is the number of workers started, \<^verbatim>\<open>min(cpu_count(), 8)\<close>.
\<close>

record gui_config =
  pth_path :: string
  index_path :: string
  pitch :: real
  formant :: real
  block_time :: real
  threhold :: real
  crossfade_time :: real
  extra_time :: real
  I_noise_reduce :: bool
  O_noise_reduce :: bool
  use_pv :: bool
  rms_mix_rate :: real
  index_rate :: real
  n_cpu :: real
  f0method :: string

definition GUIConfig :: "int \<Rightarrow> gui_config" where
  "GUIConfig pool_size = \<lparr>
     pth_path = [], index_path = [], pitch = 0, formant = 0, block_time = 0.25,
     threhold = - 60, crossfade_time = 0.05, extra_time = 2.5, I_noise_reduce = False,
     O_noise_reduce = False, use_pv = False, rms_mix_rate = 0, index_rate = 0,
     n_cpu = of_int (min pool_size 4), f0method = ''fcpe'' \<rparr>"

text \<open>
  The values the window reports with an event. The two radio groups are reported as
  the name of the selected button.
\<close>

record widget_values =
  v_pth_path :: string
  v_index_path :: string
  v_threhold :: real
  v_pitch :: real
  v_formant :: real
  v_index_rate :: real
  v_rms_mix_rate :: real
  v_block_time :: real
  v_crossfade_length :: real
  v_extra_time :: real
  v_n_cpu :: real
  v_I_noise_reduce :: bool
  v_O_noise_reduce :: bool
  v_use_pv :: bool
  v_f0method :: string

text \<open>
  The conversion engine is outside the repository; the control loop only sets its
  three hot parameters.
\<close>

record rvc_params =
  rvc_key :: real
  rvc_formant :: real
  rvc_index_rate :: real

text \<open>
  The state of \<^verbatim>\<open>GUI\<close> that the control loop reads and writes, with the global
  \<^verbatim>\<open>flag_vc\<close>. \<open>stream\<close> says whether \<^verbatim>\<open>self.stream\<close> is a stream, and \<open>rvc\<close> is
  \<open>None\<close> until \<^verbatim>\<open>self.rvc\<close> is assigned. The device lists, the displayed delay and the
  buffers of the session are left out.
\<close>

record gui =
  gui_config :: gui_config
  func :: string
  flag_vc :: bool
  stream :: bool
  rvc :: "rvc_params option"
  exited :: bool

definition GUI :: "int \<Rightarrow> gui" where
  "GUI pool_size = \<lparr>
     gui_config = GUIConfig pool_size, func = ''vc'', flag_vc = False, stream = False,
     rvc = None, exited = False \<rparr>"

definition start_stream :: "gui \<Rightarrow> gui" where
  "start_stream g = (if \<not> flag_vc g then g\<lparr>flag_vc := True, stream := True\<rparr> else g)"

definition stop_stream :: "gui \<Rightarrow> gui" where
  "stop_stream g = (if flag_vc g then g\<lparr>flag_vc := False, stream := False\<rparr> else g)"

text \<open>
  \<^verbatim>\<open>set_values\<close>, lines 646--696: a path that is blank or has a character beyond ASCII
  is refused and nothing is written; otherwise every parameter is taken from the
  window.
\<close>

definition blank :: "string \<Rightarrow> bool" where
  "blank p = list_all (\<lambda>c. c \<in> set [CHR '' '', CHR 0x09, CHR 0x0A, CHR 0x0B, CHR 0x0C, CHR 0x0D,
                                      CHR 0x1C, CHR 0x1D, CHR 0x1E, CHR 0x1F]) p"

definition non_ascii :: "string \<Rightarrow> bool" where
  "non_ascii p = list_ex (\<lambda>c. (of_char c :: nat) > 127) p"

definition set_values :: "gui \<Rightarrow> widget_values \<Rightarrow> gui option" where
  "set_values g vals =
     (if blank (v_pth_path vals) then None
      else if blank (v_index_path vals) then None
      else if non_ascii (v_pth_path vals) then None
      else if non_ascii (v_index_path vals) then None
      else Some (g\<lparr>gui_config := (gui_config g)\<lparr>
             pth_path := v_pth_path vals,
             index_path := v_index_path vals,
             threhold := v_threhold vals,
             pitch := v_pitch vals,
             formant := v_formant vals,
             block_time := v_block_time vals,
             crossfade_time := v_crossfade_length vals,
             extra_time := v_extra_time vals,
             I_noise_reduce := v_I_noise_reduce vals,
             O_noise_reduce := v_O_noise_reduce vals,
             use_pv := v_use_pv vals,
             rms_mix_rate := v_rms_mix_rate vals,
             index_rate := v_index_rate vals,
             n_cpu := v_n_cpu vals,
             f0method := v_f0method vals \<rparr>\<rparr>))"

text \<open>
  The names bound in the module when the window is running, apart from the module's
  own double-underscore names: the imports of lines 1--12 and 87--97, and the
  assignments, functions and classes of the module's top level. Line 96 imports the
  engine as \<^verbatim>\<open>rtvc_for_realtime\<close>.
\<close>

definition module_names :: "string list" where
  "module_names =
     [''os'', ''sys'', ''load_dotenv'', ''shutil'', ''multiprocessing'', ''np'', ''torch'',
      ''F'', ''tat'', ''librosa'', ''sd'', ''sg'', ''current_dir'', ''flag_vc'', ''printt'',
      ''phase_vocoder'', ''Harvest'', ''json'', ''re'', ''threading'', ''time'', ''Queue'',
      ''cpu_count'', ''Empty'', ''TorchGate'', ''rtvc_for_realtime'', ''Config'', ''inp_q'',
      ''opt_q'', ''n_cpu'', ''p'', ''_'', ''GUIConfig'', ''GUI'']"

text \<open>
  \<^verbatim>\<open>GUI.start_vc\<close>, lines 698--814. Line 700 reads the name \<^verbatim>\<open>rvc_for_realtime\<close>, which
  is neither a local nor a builtin: a name that the module does not bind raises
  NameError there, before \<^verbatim>\<open>self.rvc\<close> is assigned. After line 700 the engine holds the
  current pitch, formant and index rate, lines 718--793 size the session for the
  sample rate in use, and line 814 starts the stream.
\<close>

definition start_vc :: "int \<Rightarrow> (real \<Rightarrow> int \<Rightarrow> int \<Rightarrow> real) \<Rightarrow> gui \<Rightarrow> error + gui" where
  "start_vc samplerate fdiv g =
     (if ''rvc_for_realtime'' \<notin> set module_names then Inl NameError
      else case init_session fdiv (block_time (gui_config g)) (crossfade_time (gui_config g))
                  (extra_time (gui_config g)) samplerate of
             Inl e \<Rightarrow> Inl e
           | Inr s \<Rightarrow>
               Inr (start_stream (g\<lparr>
                 rvc := Some \<lparr> rvc_key = pitch (gui_config g),
                               rvc_formant = formant (gui_config g),
                               rvc_index_rate = index_rate (gui_config g) \<rparr> \<rparr>)))"

text \<open>The chain of lines 608--644, headed \<^verbatim>\<open># Parameter hot update\<close>.\<close>

definition hot_update :: "gui \<Rightarrow> string \<Rightarrow> widget_values \<Rightarrow> gui" where
  "hot_update g event vals =
     (if event = ''threhold'' then
        g\<lparr>gui_config := (gui_config g)\<lparr>threhold := v_threhold vals\<rparr>\<rparr>
      else if event = ''pitch'' then
        g\<lparr>gui_config := (gui_config g)\<lparr>pitch := v_pitch vals\<rparr>,
          rvc := map_option (\<lambda>r. r\<lparr>rvc_key := v_pitch vals\<rparr>) (rvc g)\<rparr>
      else if event = ''formant'' then
        g\<lparr>gui_config := (gui_config g)\<lparr>formant := v_formant vals\<rparr>,
          rvc := map_option (\<lambda>r. r\<lparr>rvc_formant := v_formant vals\<rparr>) (rvc g)\<rparr>
      else if event = ''index_rate'' then
        g\<lparr>gui_config := (gui_config g)\<lparr>index_rate := v_index_rate vals\<rparr>,
          rvc := map_option (\<lambda>r. r\<lparr>rvc_index_rate := v_index_rate vals\<rparr>) (rvc g)\<rparr>
      else if event = ''rms_mix_rate'' then
        g\<lparr>gui_config := (gui_config g)\<lparr>rms_mix_rate := v_rms_mix_rate vals\<rparr>\<rparr>
      else if event \<in> set [''pm'', ''harvest'', ''crepe'', ''rmvpe'', ''fcpe''] then
        g\<lparr>gui_config := (gui_config g)\<lparr>f0method := event\<rparr>\<rparr>
      else if event = ''I_noise_reduce'' then
        g\<lparr>gui_config := (gui_config g)\<lparr>I_noise_reduce := v_I_noise_reduce vals\<rparr>\<rparr>
      else if event = ''O_noise_reduce'' then
        g\<lparr>gui_config := (gui_config g)\<lparr>O_noise_reduce := v_O_noise_reduce vals\<rparr>\<rparr>
      else if event = ''use_pv'' then
        g\<lparr>gui_config := (gui_config g)\<lparr>use_pv := v_use_pv vals\<rparr>\<rparr>
      else if event \<in> set [''vc'', ''im''] then g\<lparr>func := event\<rparr>
      else if event = ''stop_vc'' \<or> event \<noteq> ''start_vc'' then stop_stream g
      else g)"

text \<open>
  One iteration of \<^verbatim>\<open>event_handler\<close>, lines 527--644, for the event and the values that
  \<^verbatim>\<open>window.read()\<close> returns. Reloading the devices clears \<^verbatim>\<open>flag_vc\<close>
  (\<^verbatim>\<open>update_devices\<close>); closing the window stops the stream and leaves the loop. An
  exception of \<^verbatim>\<open>start_vc\<close> is not caught and ends the loop.
\<close>

datatype event = WINDOW_CLOSED | Event string

definition handle_event ::
  "int \<Rightarrow> (real \<Rightarrow> int \<Rightarrow> int \<Rightarrow> real) \<Rightarrow> gui \<Rightarrow> event \<Rightarrow> widget_values \<Rightarrow> error + gui" where
  "handle_event samplerate fdiv g ev vals =
     (case ev of
        WINDOW_CLOSED \<Rightarrow> Inr ((stop_stream g)\<lparr>exited := True\<rparr>)
      | Event event \<Rightarrow>
          let g1 = (if event = ''reload_devices'' \<or> event = ''sg_hostapi''
                    then g\<lparr>flag_vc := False\<rparr> else g)
          in (case (if event = ''start_vc'' \<and> \<not> flag_vc g1
                    then (case set_values g1 vals of
                            None \<Rightarrow> Inr g1
                          | Some g2 \<Rightarrow> start_vc samplerate fdiv g2)
                    else Inr g1) of
                Inl e \<Rightarrow> Inl e
              | Inr g3 \<Rightarrow> Inr (hot_update g3 event vals)))"

section \<open>Properties of the ring-buffer update\<close>

lemma slice_assign_length:
  "lo \<le> hi \<Longrightarrow> hi \<le> length x \<Longrightarrow> slice_assign x lo hi src = Inr y \<Longrightarrow> length y = length x"
  by (auto simp: slice_assign_def split: if_splits)

lemma shift_left_length: "shift_left buf b = Inr w \<Longrightarrow> length w = length buf"
  unfolding shift_left_def
  by (rule slice_assign_length [of 0 "neg_stop (length buf) b"]) (auto simp: neg_stop_def)

lemma write_tail_length: "write_tail buf m x = Inr w \<Longrightarrow> length w = length buf"
  unfolding write_tail_def
  by (rule slice_assign_length [of "neg_start (length buf) m" "length buf"])
     (auto simp: neg_start_def)

lemma update_input_wav_length:
  "update_input_wav buf b x = Inr w \<Longrightarrow> length w = length buf"
proof -
  assume a: "update_input_wav buf b x = Inr w"
  then obtain v where v: "shift_left buf b = Inr v" and w: "write_tail v (length x) x = Inr w"
    by (auto simp: update_input_wav_def split: sum.splits)
  from write_tail_length [OF w] shift_left_length [OF v] show ?thesis by simp
qed

lemma ring_update_steps:
  assumes "0 < sh" and "sh \<le> m" and "m \<le> length buf" and "length src = m"
  shows "shift_left buf sh = Inr (drop sh buf @ drop (length buf - sh) buf)"
    and "write_tail (drop sh buf @ drop (length buf - sh) buf) m src
           = Inr (take (length buf - m) (drop sh buf) @ src)"
proof -
  show "shift_left buf sh = Inr (drop sh buf @ drop (length buf - sh) buf)"
    using assms by (simp add: shift_left_def slice_assign_def neg_stop_def)
  have l: "length (drop sh buf @ drop (length buf - sh) buf) = length buf"
    using assms by simp
  have t: "take (length buf - m) (drop sh buf @ drop (length buf - sh) buf)
           = take (length buf - m) (drop sh buf)"
    using assms by simp
  show "write_tail (drop sh buf @ drop (length buf - sh) buf) m src
           = Inr (take (length buf - m) (drop sh buf) @ src)"
    unfolding write_tail_def l using assms t by (simp add: slice_assign_def neg_start_def)
qed

lemma ring_update_positions:
  assumes "0 < sh" and "sh \<le> m" and "m \<le> length buf" and "length src = m"
  shows "length (take (length buf - m) (drop sh buf) @ src) = length buf"
    and "\<forall>i < m. (take (length buf - m) (drop sh buf) @ src) ! (length buf - m + i) = src ! i"
    and "\<forall>i < length buf - m. (take (length buf - m) (drop sh buf) @ src) ! i = buf ! (i + sh)"
proof -
  define h where "h = take (length buf - m) (drop sh buf)"
  have lh: "length h = length buf - m" using assms by (simp add: h_def)
  show "length (take (length buf - m) (drop sh buf) @ src) = length buf"
    unfolding h_def [symmetric] using assms by (simp add: lh)
  show "\<forall>i < m. (take (length buf - m) (drop sh buf) @ src) ! (length buf - m + i) = src ! i"
    unfolding h_def [symmetric]
  proof (intro allI impI)
    fix i assume "i < m"
    have "(h @ src) ! (length h + i) = src ! i" by (rule nth_append_length_plus)
    then show "(h @ src) ! (length buf - m + i) = src ! i" by (simp only: lh)
  qed
  show "\<forall>i < length buf - m. (take (length buf - m) (drop sh buf) @ src) ! i = buf ! (i + sh)"
    unfolding h_def [symmetric]
  proof (intro allI impI)
    fix i assume i: "i < length buf - m"
    then have "i < length h" by (simp only: lh)
    then have "(h @ src) ! i = h ! i" by (simp add: nth_append)
    also have "\<dots> = drop sh buf ! i" using i by (simp add: h_def)
    also have "\<dots> = buf ! (i + sh)" using i assms by (simp add: add.commute)
    finally show "(h @ src) ! i = buf ! (i + sh)" .
  qed
qed

lemma update_input_wav_eq:
  assumes "0 < b" and "b \<le> length x" and "length x \<le> length buf"
  shows "update_input_wav buf b x = Inr (take (length buf - length x) (drop b buf) @ x)"
  using ring_update_steps [OF assms refl] by (simp add: update_input_wav_def)

lemma update_input_wav_res_eq:
  assumes "0 < z" and "0 < b16" and "m = (if nr then b16 + 160 else 160 * (n div z + 1))"
    and "b16 \<le> m" and "m \<le> length res" and "length r = m"
  shows "update_input_wav_res res b16 nr n z r = Inr (take (length res - m) (drop b16 res) @ r)"
proof -
  note st = ring_update_steps [OF assms(2,4,5,6)]
  have w: "(if nr then write_tail (drop b16 res @ drop (length res - b16) res) (b16 + 160) r
            else if z = 0 then Inl ZeroDivisionError
            else write_tail (drop b16 res @ drop (length res - b16) res)
                   (160 * (n div z + 1)) r)
           = write_tail (drop b16 res @ drop (length res - b16) res) m r"
    using assms(1,3) by (cases nr) simp_all
  show ?thesis
    unfolding update_input_wav_res_def st(1) sum.case w by (rule st(2))
qed

text \<open>
  C2, as the code has it. The update shifts a rolling buffer left by one block
  (\<open>block_frame\<close>, and \<open>block_frame_16k\<close> for the 16 kHz buffer) and then overwrites its
  tail with the new samples, which are a block or more: \<open>indata\<close> is \<open>2 * zc\<close> samples
  longer than a block with the noise gate on, and the resampled chunk is 160 samples or
  more longer than \<open>block_frame_16k\<close>. For a shift that is positive and at most the
  number of new samples, and new samples that fit the buffer, the update succeeds,
  keeps the buffer's length, puts the new samples in the last positions and moves
  every other position \<open>i\<close> to the old element at \<open>i + shift\<close>.
\<close>

theorem ring_buffer_update:
  assumes "0 < b" and "b \<le> length x" and "length x \<le> length buf"
    and "0 < z" and "0 < b16" and "m = (if nr then b16 + 160 else 160 * (n div z + 1))"
    and "b16 \<le> m" and "m \<le> length res" and "length r = m"
  shows "(\<exists>buf'. update_input_wav buf b x = Inr buf'
            \<and> length buf' = length buf
            \<and> (\<forall>i < length x. buf' ! (length buf - length x + i) = x ! i)
            \<and> (\<forall>i < length buf - length x. buf' ! i = buf ! (i + b)))
         \<and> (\<exists>res'. update_input_wav_res res b16 nr n z r = Inr res'
            \<and> length res' = length res
            \<and> (\<forall>i < m. res' ! (length res - m + i) = r ! i)
            \<and> (\<forall>i < length res - m. res' ! i = res ! (i + b16)))"
proof
  show "\<exists>buf'. update_input_wav buf b x = Inr buf'
            \<and> length buf' = length buf
            \<and> (\<forall>i < length x. buf' ! (length buf - length x + i) = x ! i)
            \<and> (\<forall>i < length buf - length x. buf' ! i = buf ! (i + b))"
    using update_input_wav_eq [OF assms(1,2,3)]
      ring_update_positions [OF assms(1,2,3) refl]
    by blast
  show "\<exists>res'. update_input_wav_res res b16 nr n z r = Inr res'
            \<and> length res' = length res
            \<and> (\<forall>i < m. res' ! (length res - m + i) = r ! i)
            \<and> (\<forall>i < length res - m. res' ! i = res ! (i + b16))"
    using update_input_wav_res_eq [OF assms(4,5,6,7,8,9)]
      ring_update_positions [OF assms(5,7,8,9)]
    by blast
qed

text \<open>
  A session at 32 kHz with the shortest block, crossfade and extra time: \<open>zc = 320\<close>,
  a block of 640 samples, a raw buffer of 2880 samples and a 16 kHz buffer of 1440.
  With the noise gate on, \<open>indata\<close> has 1280 samples and the resampled chunk 800.
\<close>

theorem ring_buffer_update_witness:
  "(\<exists>buf'. update_input_wav (map real [0..<2880]) 640 (replicate 1280 (- 1)) = Inr buf'
       \<and> length buf' = 2880 \<and> buf' ! 1600 = - 1 \<and> buf' ! 0 = 640 \<and> buf' ! 1599 = 2239)
   \<and> (\<exists>res'. update_input_wav_res (map real [0..<1440]) 320 False 1280 320
                 (replicate 800 (- 1)) = Inr res'
       \<and> length res' = 1440 \<and> res' ! 640 = - 1 \<and> res' ! 0 = 320 \<and> res' ! 639 = 959)"
proof -
  let ?buf = "map real [0..<2880]" and ?x = "replicate 1280 (- 1 :: real)"
  let ?res = "map real [0..<1440]" and ?r = "replicate 800 (- 1 :: real)"
  have h: "0 < (640::nat)" "640 \<le> length ?x" "length ?x \<le> length ?buf"
    "0 < (320::nat)" "0 < (320::nat)"
    "(800::nat) = (if False then 320 + 160 else 160 * (1280 div 320 + 1))"
    "(320::nat) \<le> 800" "800 \<le> length ?res" "length ?r = 800"
    by simp_all
  note t = ring_buffer_update [OF h]
  from t [THEN conjunct1] obtain buf' where b: "update_input_wav ?buf 640 ?x = Inr buf'"
    and bl: "length buf' = length ?buf"
    and bt: "\<And>i. i < length ?x \<Longrightarrow> buf' ! (length ?buf - length ?x + i) = ?x ! i"
    and bh: "\<And>i. i < length ?buf - length ?x \<Longrightarrow> buf' ! i = ?buf ! (i + 640)"
    by blast
  from t [THEN conjunct2] obtain res' where r: "update_input_wav_res ?res 320 False 1280 320 ?r = Inr res'"
    and rl: "length res' = length ?res"
    and rt: "\<And>i. i < 800 \<Longrightarrow> res' ! (length ?res - 800 + i) = ?r ! i"
    and rh: "\<And>i. i < length ?res - 800 \<Longrightarrow> res' ! i = ?res ! (i + 320)"
    by blast
  have b1: "buf' ! 1600 = - 1" using bt [of 0] by simp
  have b2: "buf' ! 0 = 640" using bh [of 0] by simp
  have b3: "buf' ! 1599 = 2239" using bh [of 1599] by simp
  have r1: "res' ! 640 = - 1" using rt [of 0] by simp
  have r2: "res' ! 0 = 320" using rh [of 0] by simp
  have r3: "res' ! 639 = 959" using rh [of 639] by simp
  have bl': "length buf' = 2880" using bl by simp
  have rl': "length res' = 1440" using rl by simp
  from b bl' b1 b2 b3 have "\<exists>buf'. update_input_wav ?buf 640 ?x = Inr buf'
       \<and> length buf' = 2880 \<and> buf' ! 1600 = - 1 \<and> buf' ! 0 = 640 \<and> buf' ! 1599 = 2239"
    by (intro exI conjI)
  moreover from r rl' r1 r2 r3 have "\<exists>res'. update_input_wav_res ?res 320 False 1280 320 ?r = Inr res'
       \<and> length res' = 1440 \<and> res' ! 640 = - 1 \<and> res' ! 0 = 320 \<and> res' ! 639 = 959"
    by (intro exI conjI)
  ultimately show ?thesis by (rule conjI)
qed

text \<open>
  In the same session the gated update leaves at position 0 the old sample of
  position 640, one block further on, and not the old sample of position 1280, the
  number of new samples further on.
\<close>

theorem gated_update_shifts_by_block:
  "update_input_wav (map real [0..<2880]) 640 (replicate 1280 (- 1))
     = Inr (map real [640..<2240] @ replicate 1280 (- 1))
   \<and> (map real [640..<2240] @ replicate 1280 (- 1)) ! 0 = 640
   \<and> map real [0..<2880] ! (0 + length (replicate 1280 (- 1 :: real))) = 1280"
proof -
  have "update_input_wav (map real [0..<2880]) 640 (replicate 1280 (- 1))
     = Inr (take (length (map real [0..<2880]) - length (replicate 1280 (- 1 :: real)))
              (drop 640 (map real [0..<2880])) @ replicate 1280 (- 1))"
    by (rule update_input_wav_eq) simp_all
  also have "take (length (map real [0..<2880]) - length (replicate 1280 (- 1 :: real)))
              (drop 640 (map real [0..<2880])) = map real [640..<2240]"
    by (simp add: drop_map take_map)
  finally have a: "update_input_wav (map real [0..<2880]) 640 (replicate 1280 (- 1))
     = Inr (map real [640..<2240] @ replicate 1280 (- 1))" .
  have b: "(map real [640..<2240] @ replicate 1280 (- 1)) ! 0 = 640"
    by (simp add: nth_append)
  have c: "map real [0..<2880] ! (0 + length (replicate 1280 (- 1 :: real))) = 1280"
    by simp
  from a b c show ?thesis by (intro conjI)
qed

text \<open>
  The same in miniature: a buffer of five samples, a block of two and four new
  samples.
\<close>

lemma gated_update_small:
  "update_input_wav [1, 2, 3, 4, 5 :: int] 2 [6, 7, 8, 9] = Inr [3, 6, 7, 8, 9]"
  by (simp add: update_input_wav_def shift_left_def write_tail_def slice_assign_def
        neg_stop_def neg_start_def)

section \<open>Properties of the noise gate\<close>

lemma zero_region_length: "length (zero_region y lo hi) = length y"
  by (simp add: zero_region_def Let_def)

lemma gate_loop_length: "length (gate_loop z below i y) = length y"
  by (induction below arbitrary: i y) (simp_all add: zero_region_length)

lemma gate_indata_length:
  assumes "0 < z" and "length lookback = 4 * z"
  shows "\<exists>rb out. gate_indata thr z lookback indata db = Inr (rb, out)
           \<and> length rb = 4 * z \<and> length out = length indata + 2 * z"
proof -
  let ?y = "lookback @ indata"
  have "length (drop (neg_start (length ?y) (4 * z)) ?y) = length lookback"
    using assms by (simp add: neg_start_def)
  then have "slice_assign lookback 0 (length lookback)
               (drop (neg_start (length ?y) (4 * z)) ?y)
             = Inr (drop (neg_start (length ?y) (4 * z)) ?y)"
    by (simp add: slice_assign_def)
  moreover have "length (drop (neg_start (length ?y) (4 * z)) ?y) = 4 * z"
    using assms by (simp add: neg_start_def)
  moreover have "length (drop (z div 2)
      (gate_loop z (map (\<lambda>d. d < thr) db) 0 (drop (2 * z - z div 2) ?y)))
      = length indata + 2 * z"
    using assms by (simp add: gate_loop_length)
  ultimately show ?thesis
    by (simp add: gate_indata_def Let_def)
qed

text \<open>
  C4, as the code has it. With the gate enabled the processed input segment is
  \<open>2 * zc\<close> samples longer than the raw block, which is what the un-gated path passes
  on; the lookback tail keeps its \<open>4 * zc\<close> samples, and the rolling input buffer keeps
  its length whichever segment is written into its tail.
\<close>

theorem gated_segment_length:
  assumes "0 < z" and "length lookback = 4 * z" and "thr > - 60"
  shows "\<exists>rb out. process_indata thr z lookback indata db = Inr (rb, out)
           \<and> length rb = 4 * z
           \<and> length out = length indata + 2 * z
           \<and> process_indata (- 60) z lookback indata db = Inr (lookback, indata)
           \<and> (\<forall>w. update_input_wav buf bf out = Inr w
                  \<longrightarrow> length w = length buf)"
proof -
  obtain rb out where g: "gate_indata thr z lookback indata db = Inr (rb, out)"
    and l: "length rb = 4 * z" "length out = length indata + 2 * z"
    using gate_indata_length [OF assms(1,2)] by blast
  have "process_indata thr z lookback indata db = Inr (rb, out)"
    using g assms(3) by (simp add: process_indata_def)
  moreover have "process_indata (- 60) z lookback indata db = Inr (lookback, indata)"
    by (simp add: process_indata_def)
  ultimately show ?thesis
    using l update_input_wav_length by blast
qed

theorem gated_segment_length_witness:
  "\<exists>rb out. process_indata (- 30) 2 (replicate 8 0) [0, 0, 0, 0]
             [- 100, - 100, - 100, - 100, - 100] = Inr (rb, out)
     \<and> length rb = 8 \<and> length out = 8"
proof -
  have "(0::nat) < 2" and "length (replicate 8 (0::real)) = 4 * 2" and "(- 30 :: real) > - 60"
    by simp_all
  from gated_segment_length [OF this, of "[0, 0, 0, 0]" "[- 100, - 100, - 100, - 100, - 100]"
      "[] :: real list" 0]
  show ?thesis by simp blast
qed

text \<open>
  A silent block of four samples at \<open>zc = 2\<close>: five frames, all at \<open>-100\<close> dB. The gated
  path passes on eight samples, the un-gated path four.
\<close>

theorem gated_segment_longer_example:
  "process_indata (- 30) 2 (replicate 8 0) [0, 0, 0, 0] [- 100, - 100, - 100, - 100, - 100]
     = Inr (replicate 8 0, replicate 8 0)
   \<and> process_indata (- 60) 2 (replicate 8 0) [0, 0, 0, 0] [- 100, - 100, - 100, - 100, - 100]
     = Inr (replicate 8 0, [0, 0, 0, 0])"
  by (simp add: process_indata_def gate_indata_def slice_assign_def neg_start_def
        zero_region_def Let_def eval_nat_numeral)

section \<open>Properties of the fade windows\<close>

lemma length_linspace01: "length (linspace01 n) = n"
  by (simp add: linspace01_def)

lemma length_fade_in_window: "length (fade_in_window n) = n"
  by (simp add: fade_in_window_def length_linspace01)

lemma length_fade_out_window: "length (fade_out_window n) = n"
  by (simp add: fade_out_window_def length_fade_in_window)

lemma linspace01_nth: "t < n \<Longrightarrow> linspace01 n ! t = real t / real (n - 1)"
  by (auto simp: linspace01_def)

lemma fade_in_window_nth:
  "t < n \<Longrightarrow> fade_in_window n ! t = (sin (pi * real t / (2 * real (n - 1))))\<^sup>2"
  by (simp add: fade_in_window_def length_linspace01 linspace01_nth field_simps)

lemma fade_out_window_nth:
  "t < n \<Longrightarrow> fade_out_window n ! t = 1 - fade_in_window n ! t"
  by (simp add: fade_out_window_def length_fade_in_window)

lemma fade_in_window_range:
  "t < n \<Longrightarrow> 0 \<le> fade_in_window n ! t \<and> fade_in_window n ! t \<le> 1"
  by (simp add: fade_in_window_nth abs_square_le_1)

lemma fade_mid: "fade_in_window 3 ! 1 = 1 / 2"
proof -
  have "fade_in_window 3 ! 1 = (sin (pi * real 1 / (2 * real (3 - 1))))\<^sup>2"
    by (rule fade_in_window_nth) simp
  also have "\<dots> = (sin (pi / 4))\<^sup>2" by simp
  also have "\<dots> = 1 / 2" by (simp add: sin_45 power2_eq_square)
  finally show ?thesis .
qed

lemma fade_in_window_last: "2 \<le> n \<Longrightarrow> fade_in_window n ! (n - 1) = 1"
proof -
  assume n: "2 \<le> n"
  then have "fade_in_window n ! (n - 1) = (sin (pi * real (n - 1) / (2 * real (n - 1))))\<^sup>2"
    by (intro fade_in_window_nth) simp
  also have "pi * real (n - 1) / (2 * real (n - 1)) = pi / 2"
  proof -
    define m where "m = real (n - 1)"
    have "m \<noteq> 0" using n by (simp add: m_def)
    then have "pi * m / (2 * m) = pi / 2" by simp
    then show ?thesis by (simp only: m_def)
  qed
  finally show ?thesis by simp
qed

lemma fade_in_window_first: "0 < n \<Longrightarrow> fade_in_window n ! 0 = 0"
  by (simp add: fade_in_window_nth)

text \<open>
  C3, as the code has it. The windows are a squared sine and one minus it, so the sum
  of their squares is \<open>1 - 2 * fade_in * fade_out\<close>: between 1/2 and 1, and 1 only
  where \<open>fade_in\<close> is 0 or 1, as at the first index and, for a window of two samples or
  more, at the last.
\<close>

theorem fade_windows_power_sum:
  assumes "t < n"
  shows "(fade_in_window n ! t)\<^sup>2 + (fade_out_window n ! t)\<^sup>2
           = 1 - 2 * (fade_in_window n ! t) * (fade_out_window n ! t)
         \<and> 1 / 2 \<le> (fade_in_window n ! t)\<^sup>2 + (fade_out_window n ! t)\<^sup>2
         \<and> (fade_in_window n ! t)\<^sup>2 + (fade_out_window n ! t)\<^sup>2 \<le> 1
         \<and> ((fade_in_window n ! t)\<^sup>2 + (fade_out_window n ! t)\<^sup>2 = 1
              \<longleftrightarrow> fade_in_window n ! t = 0 \<or> fade_in_window n ! t = 1)
         \<and> fade_in_window n ! 0 = 0
         \<and> (2 \<le> n \<longrightarrow> fade_in_window n ! (n - 1) = 1)"
proof -
  define u where "u = fade_in_window n ! t"
  have o: "fade_out_window n ! t = 1 - u"
    using assms by (simp add: u_def fade_out_window_nth)
  have r: "0 \<le> u" "u \<le> 1"
    using fade_in_window_range [OF assms] by (simp_all add: u_def)
  have e: "u\<^sup>2 + (1 - u)\<^sup>2 = 1 - 2 * u * (1 - u)"
    by (simp add: power2_eq_square algebra_simps)
  have m: "0 \<le> u * (1 - u)" using r by simp
  have h: "u\<^sup>2 + (1 - u)\<^sup>2 - 1 / 2 = 2 * (u - 1 / 2)\<^sup>2"
    by (simp add: power2_eq_square algebra_simps)
  have g: "1 / 2 \<le> u\<^sup>2 + (1 - u)\<^sup>2"
  proof -
    have "0 \<le> 2 * (u - 1 / 2)\<^sup>2" by simp
    with h show ?thesis by linarith
  qed
  have q: "u\<^sup>2 + (1 - u)\<^sup>2 = 1 \<longleftrightarrow> u = 0 \<or> u = 1"
  proof -
    have "u\<^sup>2 + (1 - u)\<^sup>2 = 1 \<longleftrightarrow> u * (1 - u) = 0" using e by linarith
    then show ?thesis by auto
  qed
  have f: "fade_in_window n ! 0 = 0" using assms by (simp add: fade_in_window_first)
  show ?thesis
    unfolding o u_def [symmetric]
    using e g m q f fade_in_window_last [of n] by simp
qed

theorem fade_windows_power_sum_witness:
  "(fade_in_window 3 ! 1)\<^sup>2 + (fade_out_window 3 ! 1)\<^sup>2
     = 1 - 2 * (fade_in_window 3 ! 1) * (fade_out_window 3 ! 1)
   \<and> fade_in_window 3 ! 2 = 1 \<and> fade_in_window 3 ! 0 = 0"
  using fade_windows_power_sum [of 1 3] by simp

text \<open>
  In a window of three samples the middle values are both 1/2 and their squares sum to
  1/2.
\<close>

theorem fade_windows_not_power_complementary:
  "(fade_in_window 3 ! 1)\<^sup>2 + (fade_out_window 3 ! 1)\<^sup>2 = 1 / 2"
proof -
  have o: "fade_out_window 3 ! 1 = 1 - fade_in_window 3 ! 1"
    by (rule fade_out_window_nth) simp
  show ?thesis unfolding o fade_mid by (simp add: power2_eq_square)
qed

lemma linear_crossfade_eq:
  assumes "n \<le> length x" and "length old = n" and "length fi = n" and "length fo = n"
  shows "linear_crossfade x old fi fo n
         = Inr (map2 (+) (map2 (*) (take n x) fi) (map2 (*) old fo) @ drop n x)"
proof -
  have a: "inplace_head (*) x n fi = Inr (map2 (*) (take n x) fi @ drop n x)"
    using assms by (simp add: inplace_head_def)
  have b: "tensor_op (*) old fo = Inr (map2 (*) old fo)"
    using assms by (simp add: tensor_op_def)
  have c: "inplace_head (+) (map2 (*) (take n x) fi @ drop n x) n (map2 (*) old fo)
           = Inr (map2 (+) (map2 (*) (take n x) fi) (map2 (*) old fo) @ drop n x)"
    using assms by (simp add: inplace_head_def)
  show ?thesis by (simp add: linear_crossfade_def a b c)
qed

text \<open>
  C9. For every index \<open>t\<close> of a window of \<open>n\<close> samples, \<open>fade_in(t) + fade_out(t) = 1\<close>
  with \<open>fade_in(t) = sin\<^sup>2(\<pi> t / (2 (n - 1)))\<close> in \<open>[0, 1]\<close> (the single value 0 for
  \<open>n = 1\<close>), and the linear crossfade of a block with an old tail of \<open>n\<close> samples is at
  each index the convex combination \<open>fade_in * new + (1 - fade_in) * old\<close>.
\<close>

theorem fade_windows_amplitude_complementary:
  assumes "t < n" and "n \<le> length x" and "length old = n"
  shows "fade_in_window n ! t + fade_out_window n ! t = 1
         \<and> (2 \<le> n \<longrightarrow> fade_in_window n ! t = (sin (pi * real t / (2 * (real n - 1))))\<^sup>2)
         \<and> (n = 1 \<longrightarrow> fade_in_window n ! t = 0)
         \<and> 0 \<le> fade_in_window n ! t \<and> fade_in_window n ! t \<le> 1
         \<and> (\<exists>y. linear_crossfade x old (fade_in_window n) (fade_out_window n) n = Inr y
                \<and> length y = length x
                \<and> y ! t = fade_in_window n ! t * x ! t + (1 - fade_in_window n ! t) * old ! t)"
proof -
  let ?fi = "fade_in_window n" and ?fo = "fade_out_window n"
  let ?y = "map2 (+) (map2 (*) (take n x) ?fi) (map2 (*) old ?fo) @ drop n x"
  have o: "?fo ! t = 1 - ?fi ! t" using assms(1) by (rule fade_out_window_nth)
  have s: "2 \<le> n \<longrightarrow> ?fi ! t = (sin (pi * real t / (2 * (real n - 1))))\<^sup>2"
    using assms(1) by (auto simp: fade_in_window_nth)
  have one: "n = 1 \<longrightarrow> ?fi ! t = 0"
    using assms(1) by (auto simp: fade_in_window_nth)
  have c: "linear_crossfade x old ?fi ?fo n = Inr ?y"
    using assms by (intro linear_crossfade_eq)
      (simp_all add: length_fade_in_window length_fade_out_window)
  have l: "length ?y = length x"
    using assms by (simp add: length_fade_in_window length_fade_out_window)
  have "?y ! t = x ! t * ?fi ! t + old ! t * ?fo ! t"
    using assms by (simp add: nth_append length_fade_in_window length_fade_out_window)
  then have v: "?y ! t = ?fi ! t * x ! t + (1 - ?fi ! t) * old ! t"
    by (simp add: o algebra_simps)
  show ?thesis
    using o s one fade_in_window_range [OF assms(1)] c l v by simp
qed

theorem fade_windows_amplitude_complementary_witness:
  "fade_in_window 3 ! 1 + fade_out_window 3 ! 1 = 1
   \<and> (\<exists>y. linear_crossfade [4, 6, 8, 10] [2, 2, 2] (fade_in_window 3) (fade_out_window 3) 3
            = Inr y \<and> y ! 1 = 4)"
proof -
  have "(1::nat) < 3" and "3 \<le> length [4, 6, 8, 10 :: real]" and "length [2, 2, 2 :: real] = 3"
    by simp_all
  from fade_windows_amplitude_complementary [OF this]
  show ?thesis unfolding fade_mid by auto
qed

section \<open>Properties of the phase vocoder\<close>

lemma wrap_phase_range: "- pi \<le> wrap_phase d \<and> wrap_phase d < pi"
proof -
  define k where "k = \<lfloor>d / 2 / pi + 0.5\<rfloor>"
  have e: "d / 2 / pi + 0.5 = (d + pi) / (2 * pi)"
    by (simp add: field_simps)
  have lo: "of_int k \<le> (d + pi) / (2 * pi)" and hi: "(d + pi) / (2 * pi) < of_int k + 1"
    unfolding k_def e by linarith+
  have p: "0 < 2 * pi" by simp
  have a: "of_int k * (2 * pi) \<le> d + pi"
    using lo p by (simp only: pos_le_divide_eq)
  have b: "d + pi < (of_int k + 1) * (2 * pi)"
    using hi p by (simp only: pos_divide_less_eq)
  have "wrap_phase d = d - of_int k * (2 * pi)"
    by (simp add: wrap_phase_def k_def)
  then show ?thesis using a b by (simp add: algebra_simps)
qed

lemma wrap_pi: "wrap_phase pi = - pi"
  by (simp add: wrap_phase_def)

lemma Arg_pos_real: "0 < r \<Longrightarrow> Arg (of_real r) = 0"
  by (rule cis_Arg_unique) (simp_all add: sgn_eq complex_eq_iff)

lemma Arg_neg_real: "r < 0 \<Longrightarrow> Arg (of_real r) = pi"
  by (rule cis_Arg_unique) (simp_all add: sgn_eq complex_eq_iff)



lemma fade_in_window_3: "fade_in_window 3 = [0, 1 / 2, 1]"
proof -
  have "length (fade_in_window 3) = 3" by (rule length_fade_in_window)
  moreover have "fade_in_window 3 ! 0 = 0" by (simp add: fade_in_window_first)
  moreover have "fade_in_window 3 ! 1 = 1 / 2" by (rule fade_mid)
  moreover have "fade_in_window 3 ! 2 = 1" using fade_in_window_last [of 3] by simp
  ultimately show ?thesis
    by (simp add: list_eq_iff_nth_eq less_Suc_eq eval_nat_numeral)
qed

lemma fade_out_window_3: "fade_out_window 3 = [1, 1 / 2, 0]"
  by (simp add: fade_out_window_def fade_in_window_3)

lemma pv_window_3: "pv_window (fade_out_window 3) (fade_in_window 3) = [0, 1 / 2, 0]"
proof -
  have "sqrt (1 / 2 * (1 / 2)) = \<bar>1 / 2 :: real\<bar>" by (rule real_sqrt_abs2)
  then have "sqrt (1 / 2 * (1 / 2)) = 1 / 2" by simp
  then show ?thesis
    by (simp add: pv_window_def fade_in_window_3 fade_out_window_3)
qed

lemma upt3: "[0..<3] = [0, 1, 2]"
  by (simp add: eval_nat_numeral)

lemma rfft_nth:
  "k < length x div 2 + 1 \<Longrightarrow>
   rfft x ! k = (\<Sum>j \<leftarrow> [0..<length x].
                   of_real (x ! j) * cis (- 2 * pi * real k * real j / real (length x)))"
  by (simp add: rfft_def Let_def del: upt_Suc)

lemma rfft_bin0a: "rfft [0, 1 / 2, 0] ! 0 = of_real (1 / 2)"
  by (simp add: rfft_nth upt3)

lemma rfft_bin0b: "rfft [0, - (1 / 2), 0] ! 0 = of_real (- (1 / 2))"
  by (simp add: rfft_nth upt3)

lemma length_rfft: "length (rfft x) = length x div 2 + 1"
  by (simp add: rfft_def Let_def)

lemma length_pv_deltaphase:
  "length a = n \<Longrightarrow> length b = n \<Longrightarrow> length fo = n \<Longrightarrow> length fi = n \<Longrightarrow>
   length (pv_deltaphase a b fo fi) = n div 2 + 1"
  by (simp add: pv_deltaphase_def Let_def length_rfft pv_window_def)

text \<open>
  The outgoing tail \<open>[0, 1, 0]\<close> and the incoming block \<open>[0, -1, 0]\<close> under the windows
  of three samples: at bin 0 the two transforms are \<open>1/2\<close> and \<open>-1/2\<close>, the phases 0 and
  \<open>\<pi>\<close>, and the difference \<open>\<pi>\<close> is wrapped to \<open>-\<pi>\<close>, which is outside \<open>(-\<pi>, \<pi>]\<close>.
\<close>

theorem deltaphase_example:
  "pv_deltaphase [0, 1, 0] [0, - 1, 0] (fade_out_window 3) (fade_in_window 3) ! 0 = - pi"
proof -
  have a: "Arg (rfft [0, 1 / 2, 0] ! 0) = 0"
    unfolding rfft_bin0a by (rule Arg_pos_real) simp
  have b: "Arg (rfft [0, - (1 / 2), 0] ! 0) = pi"
    unfolding rfft_bin0b by (rule Arg_neg_real) simp
  have "pv_deltaphase [0, 1, 0] [0, - 1, 0] (fade_out_window 3) (fade_in_window 3) ! 0
        = wrap_phase (Arg (rfft [0, - (1 / 2), 0] ! 0) - Arg (rfft [0, 1 / 2, 0] ! 0))"
    by (simp add: pv_deltaphase_def pv_window_3 Let_def length_rfft)
  then show ?thesis by (simp add: a b wrap_pi)
qed

text \<open>
  C8, as the code has it. \<open>d - 2\<pi> * floor (d / 2\<pi> + 1/2)\<close> lies in the half-open
  interval \<open>[-\<pi>, \<pi>)\<close>: every entry of \<^verbatim>\<open>deltaphase\<close> is at least \<open>-\<pi>\<close> and below \<open>\<pi>\<close>.
\<close>

theorem deltaphase_wrapped:
  assumes "k < length (pv_deltaphase a b fo fi)"
  shows "- pi \<le> pv_deltaphase a b fo fi ! k \<and> pv_deltaphase a b fo fi ! k < pi"
proof -
  have "\<exists>d. pv_deltaphase a b fo fi ! k = wrap_phase d"
    using assms by (auto simp: pv_deltaphase_def Let_def)
  then show ?thesis using wrap_phase_range by auto
qed

theorem deltaphase_wrapped_witness:
  "- pi \<le> pv_deltaphase [0, 1, 0] [0, - 1, 0] (fade_out_window 3) (fade_in_window 3) ! 1
   \<and> pv_deltaphase [0, 1, 0] [0, - 1, 0] (fade_out_window 3) (fade_in_window 3) ! 1 < pi"
proof -
  have "length (pv_deltaphase [0, 1, 0] [0, - 1, 0] (fade_out_window 3) (fade_in_window 3))
        = 3 div 2 + 1"
    by (rule length_pv_deltaphase) (simp_all add: length_fade_in_window length_fade_out_window)
  then have "1 < length (pv_deltaphase [0, 1, 0] [0, - 1, 0] (fade_out_window 3) (fade_in_window 3))"
    by simp
  then show ?thesis by (rule deltaphase_wrapped)
qed

section \<open>Properties of the session start\<close>

lemma alloc_session_fields:
  assumes "alloc_session z bf cf ef = Inr s"
  shows "zc s = z"
    and "block_frame s = bf"
    and "crossfade_frame s = cf"
    and "extra_frame s = ef"
    and "sola_buffer_frame s = min cf (4 * z)"
    and "sola_search_frame s = z"
    and "0 \<le> ef + cf + z + bf"
    and "0 \<le> min cf (4 * z)"
    and "input_wav s = replicate (nat (ef + cf + z + bf)) 0"
    and "input_wav_denoise s = input_wav s"
    and "output_buffer s = input_wav s"
    and "sola_buffer s = replicate (nat (min cf (4 * z))) 0"
    and "nr_buffer s = sola_buffer s"
    and "fade_in s = fade_in_window (nat (min cf (4 * z)))"
    and "fade_out s = fade_out_window (nat (min cf (4 * z)))"
  using assms
  by (auto simp: alloc_session_def Let_def split: if_splits)

lemma init_session_Inr:
  assumes "init_session fd bt ct et sr = Inr s"
  shows "sr div 100 \<noteq> 0"
    and "alloc_session (sr div 100) (frame_count fd bt sr (sr div 100))
           (frame_count fd ct sr (sr div 100)) (frame_count fd et sr (sr div 100)) = Inr s"
  using assms by (auto simp: init_session_def Let_def split: if_splits)

text \<open>
  C10. Whenever lines 718--793 complete, \<open>sola_buffer_frame = min(crossfade_frame, 4 * zc)\<close>
  whatever the crossfade time: the SOLA tail, the denoise tail and both fade windows
  have at most \<open>4 * zc\<close> samples, which last at most 40 ms (\<open>100 * zc \<le> samplerate\<close>),
  while the rolling buffers have
  \<open>extra_frame + crossfade_frame + sola_search_frame + block_frame\<close> samples, with
  \<open>crossfade_frame\<close> uncapped.
\<close>

theorem sola_buffer_frame_capped:
  assumes "init_session fd bt ct et sr = Inr s"
  shows "sola_buffer_frame s = min (crossfade_frame s) (4 * zc s)
         \<and> crossfade_frame s = np_round (fd ct sr (zc s)) * zc s
         \<and> zc s = sr div 100
         \<and> sola_buffer_frame s \<le> 4 * zc s
         \<and> 100 * (4 * zc s) \<le> 4 * sr
         \<and> int (length (sola_buffer s)) = sola_buffer_frame s
         \<and> length (nr_buffer s) = length (sola_buffer s)
         \<and> length (fade_in s) = length (sola_buffer s)
         \<and> length (fade_out s) = length (sola_buffer s)
         \<and> int (length (input_wav s))
             = extra_frame s + crossfade_frame s + sola_search_frame s + block_frame s
         \<and> length (input_wav_denoise s) = length (input_wav s)
         \<and> length (output_buffer s) = length (input_wav s)"
proof -
  note f = alloc_session_fields [OF init_session_Inr(2) [OF assms]]
  have "100 * (sr div 100) \<le> sr" by simp
  then have a: "100 * (4 * zc s) \<le> 4 * sr" by (simp add: f(1))
  have b: "sola_buffer_frame s \<le> 4 * zc s" by (simp add: f(1,5))
  have c: "crossfade_frame s = np_round (fd ct sr (zc s)) * zc s"
    by (simp add: f(1,3) frame_count_def)
  have d: "sola_buffer_frame s = min (crossfade_frame s) (4 * zc s)"
    by (simp add: f(1,3,5))
  have e: "int (length (sola_buffer s)) = sola_buffer_frame s"
    using f(8) by (simp add: f(5,12))
  have g: "int (length (input_wav s))
             = extra_frame s + crossfade_frame s + sola_search_frame s + block_frame s"
    using f(7) by (simp add: f(2,3,4,6,9))
  have h: "length (fade_in s) = length (sola_buffer s)"
          "length (fade_out s) = length (sola_buffer s)"
    by (simp_all add: f(12,14,15) length_fade_in_window length_fade_out_window)
  show ?thesis
    using a b c d e g h by (simp add: f(1,10,11,13))
qed

lemma np_round_of_int: "np_round (of_int k) = k"
  by (simp add: np_round_def)

text \<open>
  A half is rounded to the even neighbour, and a double just above a half is rounded
  up: at 22050 Hz and 2.2 s the quotient is the double \<open>220.5 + 2\<^sup>-\<^sup>4\<^sup>5\<close>, and
  the count is 221.
\<close>

lemma np_round_half: "np_round 220.5 = 220" and "np_round (220.5 + 1 / 2 ^ 45) = 221"
proof -
  have f: "\<lfloor>220.5 :: real\<rfloor> = 220" by linarith
  show "np_round 220.5 = 220" by (simp add: np_round_def f Let_def)
  have "(0::real) < 1 / 2 ^ 45" and "(1::real) / 2 ^ 45 < 1 / 2" by simp_all
  then have g: "\<lfloor>220.5 + 1 / 2 ^ 45 :: real\<rfloor> = 220" by linarith
  show "np_round (220.5 + 1 / 2 ^ 45) = 221" by (simp add: np_round_def g Let_def)
qed

text \<open>
  At 48 kHz, with a block of 0.25 s, a crossfade of 0.15 s and 2.5 s of extra time,
  the three quotients are the doubles 25, 15 and 250, as in exact arithmetic.
\<close>

lemma init_session_example:
  "\<exists>s. init_session (\<lambda>t sr z. t * of_int sr / of_int z) 0.25 0.15 2.5 48000 = Inr s
     \<and> zc s = 480 \<and> block_frame s = 12000
     \<and> crossfade_frame s = 7200 \<and> extra_frame s = 120000 \<and> sola_search_frame s = 480"
proof -
  have a: "(0.25 :: real) * of_int 48000 / of_int 480 = of_int 25" by simp
  have b: "(0.15 :: real) * of_int 48000 / of_int 480 = of_int 15" by simp
  have c: "(2.5 :: real) * of_int 48000 / of_int 480 = of_int 250" by simp
  have z: "(48000 :: int) div 100 = 480" by simp
  have fa: "frame_count (\<lambda>t sr z. t * of_int sr / of_int z) 0.25 48000 480 = 12000"
    unfolding frame_count_def a np_round_of_int by simp
  have fb: "frame_count (\<lambda>t sr z. t * of_int sr / of_int z) 0.15 48000 480 = 7200"
    unfolding frame_count_def b np_round_of_int by simp
  have fc: "frame_count (\<lambda>t sr z. t * of_int sr / of_int z) 2.5 48000 480 = 120000"
    unfolding frame_count_def c np_round_of_int by simp
  show ?thesis
    unfolding init_session_def Let_def z fa fb fc by (simp add: alloc_session_def)
qed

theorem sola_buffer_frame_capped_witness:
  "\<exists>s. init_session (\<lambda>t sr z. t * of_int sr / of_int z) 0.25 0.15 2.5 48000 = Inr s
     \<and> crossfade_frame s = 7200
     \<and> sola_buffer_frame s = 1920 \<and> length (input_wav s) = 139680"
proof -
  obtain s where s: "init_session (\<lambda>t sr z. t * of_int sr / of_int z) 0.25 0.15 2.5 48000 = Inr s"
    and v: "zc s = 480"
    "block_frame s = 12000" "crossfade_frame s = 7200" "extra_frame s = 120000"
    "sola_search_frame s = 480"
    using init_session_example by blast
  from sola_buffer_frame_capped [OF s] have "sola_buffer_frame s = 1920"
    and "int (length (input_wav s)) = 139680"
    by (simp_all add: v)
  then show ?thesis using s v by auto
qed

section \<open>Properties of the envelope mixing\<close>

text \<open>
  C5. With \<open>rms_mix_rate = 1\<close> the guard \<open>rms_mix_rate < 1\<close> fails, whatever the mode:
  the inferred waveform is passed on as it is, and neither RMS contour is computed.
\<close>

theorem envelope_mix_disabled:
  "envelope_mix 1 f ri iw w = Inr w"
  by (simp add: envelope_mix_def)

section \<open>Properties of the SOLA offset search\<close>

lemma argmax_from_props:
  assumes "best < i" and "i = length pre" and "pre ! best = m"
    and "\<forall>j < length pre. pre ! j \<le> m" and "\<forall>j < best. pre ! j < m"
  shows "argmax_from vs i best m < length (pre @ vs)
         \<and> (\<forall>j < length (pre @ vs). (pre @ vs) ! j \<le> (pre @ vs) ! argmax_from vs i best m)
         \<and> (\<forall>j < argmax_from vs i best m. (pre @ vs) ! j < (pre @ vs) ! argmax_from vs i best m)"
  using assms
proof (induction vs arbitrary: i best m pre)
  case Nil
  then show ?case by simp
next
  case (Cons v vs)
  show ?case
  proof (cases "m < v")
    case True
    have "argmax_from vs (Suc i) i v < length ((pre @ [v]) @ vs)
         \<and> (\<forall>j < length ((pre @ [v]) @ vs). ((pre @ [v]) @ vs) ! j \<le> ((pre @ [v]) @ vs) ! argmax_from vs (Suc i) i v)
         \<and> (\<forall>j < argmax_from vs (Suc i) i v. ((pre @ [v]) @ vs) ! j < ((pre @ [v]) @ vs) ! argmax_from vs (Suc i) i v)"
    proof (rule Cons.IH)
      show "i < Suc i" by simp
      show "Suc i = length (pre @ [v])" using Cons.prems by simp
      show "(pre @ [v]) ! i = v" using Cons.prems by simp
      show "\<forall>j<length (pre @ [v]). (pre @ [v]) ! j \<le> v"
        using Cons.prems True by (auto simp: nth_append less_Suc_eq intro: less_imp_le order_trans)
      show "\<forall>j<i. (pre @ [v]) ! j < v"
        using Cons.prems True by (auto simp: nth_append intro: le_less_trans)
    qed
    then show ?thesis using True by simp
  next
    case False
    have "argmax_from vs (Suc i) best m < length ((pre @ [v]) @ vs)
         \<and> (\<forall>j < length ((pre @ [v]) @ vs). ((pre @ [v]) @ vs) ! j \<le> ((pre @ [v]) @ vs) ! argmax_from vs (Suc i) best m)
         \<and> (\<forall>j < argmax_from vs (Suc i) best m. ((pre @ [v]) @ vs) ! j < ((pre @ [v]) @ vs) ! argmax_from vs (Suc i) best m)"
    proof (rule Cons.IH)
      show "best < Suc i" using Cons.prems by simp
      show "Suc i = length (pre @ [v])" using Cons.prems by simp
      show "(pre @ [v]) ! best = m" using Cons.prems by (simp add: nth_append)
      show "\<forall>j<length (pre @ [v]). (pre @ [v]) ! j \<le> m"
        using Cons.prems False by (auto simp: nth_append less_Suc_eq)
      show "\<forall>j<best. (pre @ [v]) ! j < m"
        using Cons.prems by (auto simp: nth_append)
    qed
    then show ?thesis using False by simp
  qed
qed

lemma torch_argmax_first:
  assumes "torch_argmax t = Inr k"
  shows "k < length t \<and> (\<forall>j < length t. t ! j \<le> t ! k) \<and> (\<forall>j < k. t ! j < t ! k)"
proof (cases t)
  case Nil
  with assms show ?thesis by (simp add: torch_argmax_def)
next
  case (Cons v vs)
  then have k: "k = argmax_from vs 1 0 v" using assms by (simp add: torch_argmax_def)
  have "argmax_from vs 1 0 v < length ([v] @ vs)
         \<and> (\<forall>j < length ([v] @ vs). ([v] @ vs) ! j \<le> ([v] @ vs) ! argmax_from vs 1 0 v)
         \<and> (\<forall>j < argmax_from vs 1 0 v. ([v] @ vs) ! j < ([v] @ vs) ! argmax_from vs 1 0 v)"
    by (rule argmax_from_props) simp_all
  then show ?thesis using Cons k by simp
qed

lemma sola_offset_darwin_raises: "sola_offset ''darwin'' w sb n m \<noteq> Inr k"
  by (simp add: sola_offset_def Let_def split: sum.splits)

lemma upt3': "[0..<3] = [0, 1, 2]" by (simp add: eval_nat_numeral)

lemma sola_example_conv:
  "conv1d [1, - 1, 1, - 1] [- 1, 1] = Inr [- 2, 2, - 2]"
  "conv1d (map (\<lambda>u. u\<^sup>2) [1, - 1, 1, - 1]) (replicate 2 1) = Inr [2, 2, 2]"
  by (simp_all add: conv1d_def upt3' eval_nat_numeral)

lemma sola_example_cor:
  "tensor_op (/) [- 2, 2, - 2] (map (\<lambda>u. sqrt (u + 1 / 10 ^ 8)) [2, 2, 2])
     = Inr [- 2 / sqrt (2 + 1 / 10 ^ 8), 2 / sqrt (2 + 1 / 10 ^ 8), - 2 / sqrt (2 + 1 / 10 ^ 8)]"
  by (simp add: tensor_op_def)

lemma sola_example_argmax:
  "torch_argmax [- 2 / sqrt (2 + 1 / 10 ^ 8), 2 / sqrt (2 + 1 / 10 ^ 8),
                 - 2 / sqrt (2 + 1 / 10 ^ 8)] = Inr 1"
proof -
  have "(0::real) < sqrt (2 + 1 / 10 ^ 8)" by simp
  then have "- 2 / sqrt (2 + 1 / 10 ^ 8) < 2 / sqrt (2 + 1 / 10 ^ 8)"
    by (intro divide_strict_right_mono) simp_all
  then show ?thesis by (simp add: torch_argmax_def)
qed

lemma sola_example_max:
  "\<exists>v. torch_max [- 2 / sqrt (2 + 1 / 10 ^ 8), 2 / sqrt (2 + 1 / 10 ^ 8),
                     - 2 / sqrt (2 + 1 / 10 ^ 8)] = Inr v"
  by (simp add: torch_max_def)

text \<open>
  C1 asks for the same offset on every platform: the argmax of the normalised
  cross-correlation, the lowest offset winning a tie. Off \<^verbatim>\<open>darwin\<close> the code returns
  exactly that (\<open>torch_argmax_first\<close>); on \<^verbatim>\<open>darwin\<close> it never returns an offset
  (\<open>sola_offset_darwin_raises\<close>). For the tail \<open>[-1, 1]\<close> and the block
  \<open>[1, -1, 1, -1]\<close> the correlation peaks at offset 1, which is what \<^verbatim>\<open>linux\<close> returns,
  and \<^verbatim>\<open>darwin\<close> raises TypeError.
\<close>

theorem sola_offset_platform_dependent:
  "sola_offset ''darwin'' [1, - 1, 1, - 1] [- 1, 1] 2 2 = Inl TypeError
   \<and> sola_offset ''linux'' [1, - 1, 1, - 1] [- 1, 1] 2 2 = Inr 1"
proof -
  have ci: "take (2 + 2) [1, - 1, 1, - 1 :: real] = [1, - 1, 1, - 1]" by simp
  obtain v where v: "torch_max [- 2 / sqrt (2 + 1 / 10 ^ 8), 2 / sqrt (2 + 1 / 10 ^ 8),
                     - 2 / sqrt (2 + 1 / 10 ^ 8)] = Inr v"
    using sola_example_max by blast
  have d: "sola_offset ''darwin'' [1, - 1, 1, - 1] [- 1, 1] 2 2 = Inl TypeError"
    unfolding sola_offset_def Let_def ci sola_example_conv sum.case sola_example_cor v
    by simp
  have l: "sola_offset ''linux'' [1, - 1, 1, - 1] [- 1, 1] 2 2 = Inr 1"
    unfolding sola_offset_def Let_def ci sola_example_conv sum.case sola_example_cor
      sola_example_argmax
    by simp
  from d l show ?thesis by simp
qed

section \<open>Properties of the pitch worker pool\<close>

lemma harvest_job_maps:
  "res_maps (harvest_job h (i, x, r, n, ts) st) = (res_maps st)(r := (res_maps st r)(i \<mapsto> h x))"
  by (simp add: harvest_job_def Let_def)

lemma harvest_job_queue:
  "opt_q (harvest_job h (i, x, r, n, ts) st)
     = (if n \<le> int (card (dom ((res_maps st r)(i \<mapsto> h x)))) then opt_q st @ [ts] else opt_q st)"
  by (simp add: harvest_job_def Let_def)

lemma harvest_run_append:
  "harvest_run h (a @ b) st = harvest_run h b (harvest_run h a st)"
  by (induction a arbitrary: st) simp_all

lemma harvest_run_quiet:
  assumes "\<forall>j \<in> set js. fst (snd (snd j)) = r \<and> fst (snd (snd (snd j))) = N"
    and "distinct (map fst js)"
    and "fst ` set js \<inter> dom (res_maps st r) = {}"
    and "finite (dom (res_maps st r))"
    and "int (card (dom (res_maps st r)) + length js) < N"
  shows "opt_q (harvest_run h js st) = opt_q st
         \<and> dom (res_maps (harvest_run h js st) r) = dom (res_maps st r) \<union> fst ` set js"
  using assms
proof (induction js arbitrary: st)
  case Nil
  then show ?case by simp
next
  case (Cons j js)
  obtain i x r' n ts where j: "j = (i, x, r', n, ts)" by (cases j) auto
  from Cons.prems(1) j have r': "r' = r" and n: "n = N" by auto
  let ?st = "harvest_job h j st"
  have m: "res_maps ?st r = (res_maps st r)(i \<mapsto> h x)"
    by (simp add: j r' harvest_job_maps)
  have inew: "i \<notin> dom (res_maps st r)" using Cons.prems(3) j by auto
  have d: "dom (res_maps ?st r) = insert i (dom (res_maps st r))" by (simp add: m)
  have c: "card (dom (res_maps ?st r)) = Suc (card (dom (res_maps st r)))"
    unfolding d using inew Cons.prems(4) by simp
  have q: "opt_q ?st = opt_q st"
  proof -
    have "\<not> n \<le> int (card (dom ((res_maps st r)(i \<mapsto> h x))))"
      using c Cons.prems(5) by (simp add: m [symmetric] n)
    then show ?thesis by (simp add: j r' harvest_job_queue)
  qed
  have ih: "opt_q (harvest_run h js ?st) = opt_q ?st
         \<and> dom (res_maps (harvest_run h js ?st) r) = dom (res_maps ?st r) \<union> fst ` set js"
  proof (rule Cons.IH)
    show "\<forall>j\<in>set js. fst (snd (snd j)) = r \<and> fst (snd (snd (snd j))) = N"
      using Cons.prems(1) by simp
    show "distinct (map fst js)" using Cons.prems(2) by simp
    have "fst ` set js \<inter> insert i (dom (res_maps st r)) = {}"
      using Cons.prems(2,3) j by auto
    then show "fst ` set js \<inter> dom (res_maps ?st r) = {}"
      by (simp only: d)
    show "finite (dom (res_maps ?st r))" using Cons.prems(4) by (simp add: d)
    show "int (card (dom (res_maps ?st r)) + length js) < N"
      using Cons.prems(5) by (simp add: c)
  qed
  have run: "harvest_run h (j # js) st = harvest_run h js ?st" by simp
  have fj: "fst ` set (j # js) = insert i (fst ` set js)" by (simp add: j)
  have "opt_q (harvest_run h js ?st) = opt_q st" using ih q by simp
  moreover have "dom (res_maps (harvest_run h js ?st) r)
                   = dom (res_maps st r) \<union> insert i (fst ` set js)"
    using ih by (simp add: d)
  ultimately show ?case by (simp only: run fj)
qed

lemma harvest_token_complete:
  assumes "distinct (map fst js)"
    and "\<forall>j \<in> set js. fst (snd (snd j)) = r \<and> fst (snd (snd (snd j))) = int (length js)"
    and "dom (res_maps st1 r) \<subseteq> fst ` set js"
    and "j \<in> set js"
    and "opt_q (harvest_job h j st1) \<noteq> opt_q st1"
  shows "dom (res_maps (harvest_job h j st1) r) = fst ` set js"
proof -
  obtain i x r' n ts where j: "j = (i, x, r', n, ts)" by (cases j) auto
  from assms(2,4) j have r': "r' = r" and n: "n = int (length js)" by auto
  let ?d = "dom ((res_maps st1 r)(i \<mapsto> h x))"
  have sub: "?d \<subseteq> fst ` set js"
    using assms(3,4) j by force
  have "n \<le> int (card ?d)"
    using assms(5) by (simp add: j r' harvest_job_queue split: if_splits)
  then have "length js \<le> card ?d" by (simp add: n)
  moreover have "card (fst ` set js) = length js"
    using distinct_card [OF assms(1)] by simp
  ultimately have "card (fst ` set js) \<le> card ?d" by simp
  with sub have "?d = fst ` set js"
    by (intro card_seteq) simp_all
  then show ?thesis by (simp add: j r' harvest_job_maps)
qed

text \<open>
  C7. A worker that processes the job \<open>(i, x, r0, n, ts)\<close> stores the contour under \<open>i\<close>
  in the job's result map and appends \<open>ts\<close> to the output queue exactly when the map
  then has at least \<open>n\<close> keys. For a batch \<open>js\<close> of jobs with distinct indices that
  share a fresh result map \<open>r\<close> and carry the size of the batch as their count, no
  token is put while jobs of the batch remain, and the last job puts its token when
  the map holds every index of the batch. In whatever order the jobs of the batch
  have written so far, a job of the batch that puts its token leaves the map complete.
  An iteration is one step.
\<close>

theorem harvest_completion:
  assumes "js \<noteq> []"
    and "\<forall>j \<in> set js. fst (snd (snd j)) = r \<and> fst (snd (snd (snd j))) = int (length js)"
    and "distinct (map fst js)"
    and "res_maps st r = Map.empty"
  shows "res_maps (harvest_job h (i, x, r0, n, ts) st0) r0 i = Some (h x)
         \<and> (opt_q (harvest_job h (i, x, r0, n, ts) st0)
              = (if n \<le> int (card (dom (res_maps (harvest_job h (i, x, r0, n, ts) st0) r0)))
                 then opt_q st0 @ [ts] else opt_q st0))
         \<and> (\<forall>k < length js. opt_q (harvest_run h (take k js) st) = opt_q st)
         \<and> opt_q (harvest_run h js st) = opt_q st @ [snd (snd (snd (snd (last js))))]
         \<and> dom (res_maps (harvest_run h js st) r) = fst ` set js
         \<and> (\<forall>st1. dom (res_maps st1 r) \<subseteq> fst ` set js \<longrightarrow>
               (\<forall>j \<in> set js. opt_q (harvest_job h j st1) \<noteq> opt_q st1 \<longrightarrow>
                  dom (res_maps (harvest_job h j st1) r) = fst ` set js))"
proof -
  have safe: "\<forall>st1. dom (res_maps st1 r) \<subseteq> fst ` set js \<longrightarrow>
               (\<forall>j \<in> set js. opt_q (harvest_job h j st1) \<noteq> opt_q st1 \<longrightarrow>
                  dom (res_maps (harvest_job h j st1) r) = fst ` set js)"
  proof (intro allI impI ballI)
    fix st1 j
    assume "dom (res_maps st1 r) \<subseteq> fst ` set js" and "j \<in> set js"
      and "opt_q (harvest_job h j st1) \<noteq> opt_q st1"
    with assms(3,2) show "dom (res_maps (harvest_job h j st1) r) = fst ` set js"
      by (rule harvest_token_complete)
  qed
  have step1: "res_maps (harvest_job h (i, x, r0, n, ts) st0) r0 i = Some (h x)"
    by (simp add: harvest_job_maps)
  have step2: "opt_q (harvest_job h (i, x, r0, n, ts) st0)
              = (if n \<le> int (card (dom (res_maps (harvest_job h (i, x, r0, n, ts) st0) r0)))
                 then opt_q st0 @ [ts] else opt_q st0)"
    by (simp add: harvest_job_maps harvest_job_queue)
  have quiet: "opt_q (harvest_run h (take k js) st) = opt_q st
         \<and> dom (res_maps (harvest_run h (take k js) st) r) = fst ` set (take k js)"
    if k: "k < length js" for k
  proof -
    have "opt_q (harvest_run h (take k js) st) = opt_q st
         \<and> dom (res_maps (harvest_run h (take k js) st) r)
             = dom (res_maps st r) \<union> fst ` set (take k js)"
    proof (rule harvest_run_quiet [where N = "int (length js)"])
      show "\<forall>j\<in>set (take k js). fst (snd (snd j)) = r
              \<and> fst (snd (snd (snd j))) = int (length js)"
        using assms(2) by (auto dest: in_set_takeD)
      show "distinct (map fst (take k js))"
        using assms(3) by (simp add: take_map [symmetric])
      show "fst ` set (take k js) \<inter> dom (res_maps st r) = {}" by (simp add: assms(4))
      show "finite (dom (res_maps st r))" by (simp add: assms(4))
      show "int (card (dom (res_maps st r)) + length (take k js)) < int (length js)"
        using k by (simp add: assms(4))
    qed
    then show ?thesis by (simp add: assms(4))
  qed
  define pre where "pre = butlast js"
  obtain il xl rl nl tl where l: "last js = (il, xl, rl, nl, tl)" by (cases "last js") auto
  have js: "js = pre @ [(il, xl, rl, nl, tl)]"
    using assms(1) by (simp add: pre_def l [symmetric])
  have pre: "pre = take (length js - 1) js" by (simp add: pre_def butlast_conv_take)
  have lk: "length js - 1 < length js" using assms(1) by simp
  let ?st = "harvest_run h pre st"
  have pq: "opt_q ?st = opt_q st" and pd: "dom (res_maps ?st r) = fst ` set pre"
    using quiet [OF lk] by (simp_all add: pre)
  have rl: "rl = r" and nl: "nl = int (length js)"
    using assms(2) assms(1) l last_in_set [OF assms(1)] by auto
  have inew: "il \<notin> fst ` set pre"
    using assms(3) by (subst (asm) js) auto
  have cp: "card (fst ` set pre) = length pre"
  proof -
    have "distinct (map fst pre)" using assms(3) by (subst (asm) js) simp
    then have "card (set (map fst pre)) = length (map fst pre)" by (rule distinct_card)
    then show ?thesis by simp
  qed
  have cl: "card (dom ((res_maps ?st r)(il \<mapsto> h xl))) = length js"
  proof -
    have "dom ((res_maps ?st r)(il \<mapsto> h xl)) = insert il (fst ` set pre)" by (simp add: pd)
    then have "card (dom ((res_maps ?st r)(il \<mapsto> h xl))) = Suc (length pre)"
      using inew cp by simp
    also have "\<dots> = length js" using assms(1) by (simp add: pre_def)
    finally show ?thesis .
  qed
  have run: "harvest_run h js st = harvest_job h (il, xl, r, nl, tl) ?st"
    by (subst js) (simp add: harvest_run_append rl)
  have fq: "opt_q (harvest_run h js st) = opt_q st @ [snd (snd (snd (snd (last js))))]"
    unfolding run using cl by (simp add: harvest_job_queue nl pq l)
  have fd: "dom (res_maps (harvest_run h js st) r) = fst ` set js"
  proof -
    have "dom (res_maps (harvest_run h js st) r) = insert il (fst ` set pre)"
      unfolding run by (simp add: harvest_job_maps pd)
    also have "\<dots> = fst ` set (pre @ [(il, xl, rl, nl, tl)])" by simp
    also have "\<dots> = fst ` set js" using js by simp
    finally show ?thesis .
  qed
  have q: "\<forall>k < length js. opt_q (harvest_run h (take k js) st) = opt_q st"
    using quiet by blast
  from step1 step2 q fq fd safe show ?thesis by (intro conjI)
qed

theorem harvest_completion_witness:
  "opt_q (harvest_run sum_list [(0, [1], 7, 2, 10)] \<lparr>res_maps = \<lambda>r. Map.empty, opt_q = []\<rparr>) = []
   \<and> opt_q (harvest_run sum_list [(0, [1], 7, 2, 10), (1, [2, 3], 7, 2, 10)]
         \<lparr>res_maps = \<lambda>r. Map.empty, opt_q = []\<rparr>) = [10]
   \<and> dom (res_maps (harvest_run sum_list [(0, [1], 7, 2, 10), (1, [2, 3], 7, 2, 10)]
         \<lparr>res_maps = \<lambda>r. Map.empty, opt_q = []\<rparr>) 7) = {0, 1}"
proof -
  let ?js = "[(0, [1], 7, 2, 10), (1, [2, 3], 7, 2, 10)] :: (int \<times> real list \<times> nat \<times> int \<times> real) list"
  let ?st = "\<lparr>res_maps = \<lambda>r. Map.empty, opt_q = []\<rparr> :: real pool"
  have a: "?js \<noteq> []" by simp
  have b: "\<forall>j \<in> set ?js. fst (snd (snd j)) = 7 \<and> fst (snd (snd (snd j))) = int (length ?js)"
    by simp
  have c: "distinct (map fst ?js)" by simp
  have d: "res_maps ?st 7 = Map.empty" by simp
  note t = harvest_completion [OF a b c d, of sum_list 0 "[]" 0 0 0 ?st]
  note t3 = t [THEN conjunct2, THEN conjunct2, THEN conjunct1]
  note t4 = t [THEN conjunct2, THEN conjunct2, THEN conjunct2, THEN conjunct1]
  note t5 = t [THEN conjunct2, THEN conjunct2, THEN conjunct2, THEN conjunct2, THEN conjunct1]
  from t3 have q: "\<forall>k < length ?js. opt_q (harvest_run sum_list (take k ?js) ?st) = opt_q ?st" .
  have "1 < length ?js" by simp
  with q have "opt_q (harvest_run sum_list (take 1 ?js) ?st) = opt_q ?st" by blast
  then have one: "opt_q (harvest_run sum_list [(0, [1], 7, 2, 10)] ?st) = []" by simp
  from t4 have "opt_q (harvest_run sum_list ?js ?st) = opt_q ?st @ [snd (snd (snd (snd (last ?js))))]" .
  then have two: "opt_q (harvest_run sum_list ?js ?st) = [10]" by simp
  from t5 have "dom (res_maps (harvest_run sum_list ?js ?st) 7) = fst ` set ?js" .
  then have three: "dom (res_maps (harvest_run sum_list ?js ?st) 7) = {0, 1}" by simp
  from one two three show ?thesis by (intro conjI)
qed


section \<open>Properties of the control loop\<close>

lemma stop_stream_config: "gui_config (stop_stream g) = gui_config g"
  by (simp add: stop_stream_def)

lemma hot_update_fixed:
  "block_time (gui_config (hot_update g e v)) = block_time (gui_config g)"
  "crossfade_time (gui_config (hot_update g e v)) = crossfade_time (gui_config g)"
  "extra_time (gui_config (hot_update g e v)) = extra_time (gui_config g)"
  "n_cpu (gui_config (hot_update g e v)) = n_cpu (gui_config g)"
  by (simp_all add: hot_update_def stop_stream_config)

lemma handle_event_streaming:
  assumes "flag_vc g"
  shows "handle_event sr fd g (Event e) v
         = Inr (hot_update (if e = ''reload_devices'' \<or> e = ''sg_hostapi''
                            then g\<lparr>flag_vc := False\<rparr> else g) e v)"
  using assms by (auto simp: handle_event_def Let_def)

lemma hot_update_hot:
  "hot_update g ''threhold'' v = g\<lparr>gui_config := (gui_config g)\<lparr>threhold := v_threhold v\<rparr>\<rparr>"
  "hot_update g ''rms_mix_rate'' v
     = g\<lparr>gui_config := (gui_config g)\<lparr>rms_mix_rate := v_rms_mix_rate v\<rparr>\<rparr>"
  "hot_update g ''I_noise_reduce'' v
     = g\<lparr>gui_config := (gui_config g)\<lparr>I_noise_reduce := v_I_noise_reduce v\<rparr>\<rparr>"
  "hot_update g ''O_noise_reduce'' v
     = g\<lparr>gui_config := (gui_config g)\<lparr>O_noise_reduce := v_O_noise_reduce v\<rparr>\<rparr>"
  "hot_update g ''use_pv'' v = g\<lparr>gui_config := (gui_config g)\<lparr>use_pv := v_use_pv v\<rparr>\<rparr>"
  "hot_update g ''pitch'' v
     = g\<lparr>gui_config := (gui_config g)\<lparr>pitch := v_pitch v\<rparr>,
         rvc := map_option (\<lambda>r. r\<lparr>rvc_key := v_pitch v\<rparr>) (rvc g)\<rparr>"
  "hot_update g ''formant'' v
     = g\<lparr>gui_config := (gui_config g)\<lparr>formant := v_formant v\<rparr>,
         rvc := map_option (\<lambda>r. r\<lparr>rvc_formant := v_formant v\<rparr>) (rvc g)\<rparr>"
  "hot_update g ''index_rate'' v
     = g\<lparr>gui_config := (gui_config g)\<lparr>index_rate := v_index_rate v\<rparr>,
         rvc := map_option (\<lambda>r. r\<lparr>rvc_index_rate := v_index_rate v\<rparr>) (rvc g)\<rparr>"
  by (simp_all add: hot_update_def)

lemma hot_update_f0method:
  "e \<in> set [''pm'', ''harvest'', ''crepe'', ''rmvpe'', ''fcpe''] \<Longrightarrow>
   hot_update g e v = g\<lparr>gui_config := (gui_config g)\<lparr>f0method := e\<rparr>\<rparr>"
proof -
  assume "e \<in> set [''pm'', ''harvest'', ''crepe'', ''rmvpe'', ''fcpe'']"
  then consider "e = ''pm''" | "e = ''harvest''" | "e = ''crepe''" | "e = ''rmvpe''"
    | "e = ''fcpe''"
    by auto
  then show ?thesis
    by cases (simp_all add: hot_update_def)
qed

text \<open>
  C6, as the code has it. While \<^verbatim>\<open>flag_vc\<close> is set, no event that the loop handles
  changes the block time, the crossfade time, the extra time or the worker count: they
  are written by \<^verbatim>\<open>set_values\<close> only, which runs on a start event when \<^verbatim>\<open>flag_vc\<close> is
  clear. The noise-gate threshold, the loudness factor, both noise-reduction flags, the
  phase-vocoder flag and the pitch method are written by their own events and the
  stream keeps running, as for pitch, formant and index rate.
\<close>

theorem session_parameters_while_streaming:
  assumes "flag_vc g" and "handle_event sr fd g ev v = Inr g'"
  shows "block_time (gui_config g') = block_time (gui_config g)
         \<and> crossfade_time (gui_config g') = crossfade_time (gui_config g)
         \<and> extra_time (gui_config g') = extra_time (gui_config g)
         \<and> n_cpu (gui_config g') = n_cpu (gui_config g)
         \<and> (ev = Event ''threhold'' \<longrightarrow>
               flag_vc g' \<and> threhold (gui_config g') = v_threhold v)
         \<and> (ev = Event ''rms_mix_rate'' \<longrightarrow>
               flag_vc g' \<and> rms_mix_rate (gui_config g') = v_rms_mix_rate v)
         \<and> (ev = Event ''I_noise_reduce'' \<longrightarrow>
               flag_vc g' \<and> I_noise_reduce (gui_config g') = v_I_noise_reduce v)
         \<and> (ev = Event ''O_noise_reduce'' \<longrightarrow>
               flag_vc g' \<and> O_noise_reduce (gui_config g') = v_O_noise_reduce v)
         \<and> (ev = Event ''use_pv'' \<longrightarrow>
               flag_vc g' \<and> use_pv (gui_config g') = v_use_pv v)
         \<and> (\<forall>e \<in> set [''pm'', ''harvest'', ''crepe'', ''rmvpe'', ''fcpe'']. ev = Event e \<longrightarrow>
               flag_vc g' \<and> f0method (gui_config g') = e)
         \<and> (ev = Event ''pitch'' \<longrightarrow>
               flag_vc g' \<and> pitch (gui_config g') = v_pitch v)
         \<and> (ev = Event ''formant'' \<longrightarrow>
               flag_vc g' \<and> formant (gui_config g') = v_formant v)
         \<and> (ev = Event ''index_rate'' \<longrightarrow>
               flag_vc g' \<and> index_rate (gui_config g') = v_index_rate v)"
proof (cases ev)
  case WINDOW_CLOSED
  then have "g' = (stop_stream g)\<lparr>exited := True\<rparr>"
    using assms(2) by (simp add: handle_event_def)
  then show ?thesis using WINDOW_CLOSED by (simp add: stop_stream_config)
next
  case (Event e)
  let ?g1 = "if e = ''reload_devices'' \<or> e = ''sg_hostapi'' then g\<lparr>flag_vc := False\<rparr> else g"
  have g': "g' = hot_update ?g1 e v"
    using assms(2) handle_event_streaming [OF assms(1), of sr fd e v] by (simp add: Event)
  have c: "gui_config ?g1 = gui_config g" by simp
  have fixed: "block_time (gui_config g') = block_time (gui_config g)"
    "crossfade_time (gui_config g') = crossfade_time (gui_config g)"
    "extra_time (gui_config g') = extra_time (gui_config g)"
    "n_cpu (gui_config g') = n_cpu (gui_config g)"
    unfolding g' hot_update_fixed c by simp_all
  have h1: "e = ''threhold'' \<longrightarrow> flag_vc g' \<and> threhold (gui_config g') = v_threhold v"
  proof
    assume e: "e = ''threhold''"
    have "g' = hot_update g ''threhold'' v" unfolding g' e by simp
    then show "flag_vc g' \<and> threhold (gui_config g') = v_threhold v"
      using assms(1) by (simp add: hot_update_hot)
  qed
  have h2: "e = ''rms_mix_rate'' \<longrightarrow> flag_vc g' \<and> rms_mix_rate (gui_config g') = v_rms_mix_rate v"
  proof
    assume e: "e = ''rms_mix_rate''"
    have "g' = hot_update g ''rms_mix_rate'' v" unfolding g' e by simp
    then show "flag_vc g' \<and> rms_mix_rate (gui_config g') = v_rms_mix_rate v"
      using assms(1) by (simp add: hot_update_hot)
  qed
  have h3: "e = ''I_noise_reduce'' \<longrightarrow> flag_vc g' \<and> I_noise_reduce (gui_config g') = v_I_noise_reduce v"
  proof
    assume e: "e = ''I_noise_reduce''"
    have "g' = hot_update g ''I_noise_reduce'' v" unfolding g' e by simp
    then show "flag_vc g' \<and> I_noise_reduce (gui_config g') = v_I_noise_reduce v"
      using assms(1) by (simp add: hot_update_hot)
  qed
  have h4: "e = ''O_noise_reduce'' \<longrightarrow> flag_vc g' \<and> O_noise_reduce (gui_config g') = v_O_noise_reduce v"
  proof
    assume e: "e = ''O_noise_reduce''"
    have "g' = hot_update g ''O_noise_reduce'' v" unfolding g' e by simp
    then show "flag_vc g' \<and> O_noise_reduce (gui_config g') = v_O_noise_reduce v"
      using assms(1) by (simp add: hot_update_hot)
  qed
  have h5: "e = ''use_pv'' \<longrightarrow> flag_vc g' \<and> use_pv (gui_config g') = v_use_pv v"
  proof
    assume e: "e = ''use_pv''"
    have "g' = hot_update g ''use_pv'' v" unfolding g' e by simp
    then show "flag_vc g' \<and> use_pv (gui_config g') = v_use_pv v"
      using assms(1) by (simp add: hot_update_hot)
  qed
  have h6: "\<forall>m \<in> set [''pm'', ''harvest'', ''crepe'', ''rmvpe'', ''fcpe'']. e = m \<longrightarrow>
               flag_vc g' \<and> f0method (gui_config g') = m"
  proof (intro ballI impI)
    fix m assume m: "m \<in> set [''pm'', ''harvest'', ''crepe'', ''rmvpe'', ''fcpe'']" and "e = m"
    have n: "m \<noteq> ''reload_devices''" "m \<noteq> ''sg_hostapi''" using m by auto
    have "g' = hot_update g m v" unfolding g' \<open>e = m\<close> using n by simp
    also have "\<dots> = g\<lparr>gui_config := (gui_config g)\<lparr>f0method := m\<rparr>\<rparr>"
      using m by (rule hot_update_f0method)
    finally show "flag_vc g' \<and> f0method (gui_config g') = m"
      using assms(1) by simp
  qed
  have h7: "e = ''pitch'' \<longrightarrow> flag_vc g' \<and> pitch (gui_config g') = v_pitch v"
  proof
    assume e: "e = ''pitch''"
    have "g' = hot_update g ''pitch'' v" unfolding g' e by simp
    then show "flag_vc g' \<and> pitch (gui_config g') = v_pitch v"
      using assms(1) by (simp add: hot_update_hot)
  qed
  have h8: "e = ''formant'' \<longrightarrow> flag_vc g' \<and> formant (gui_config g') = v_formant v"
  proof
    assume e: "e = ''formant''"
    have "g' = hot_update g ''formant'' v" unfolding g' e by simp
    then show "flag_vc g' \<and> formant (gui_config g') = v_formant v"
      using assms(1) by (simp add: hot_update_hot)
  qed
  have h9: "e = ''index_rate'' \<longrightarrow> flag_vc g' \<and> index_rate (gui_config g') = v_index_rate v"
  proof
    assume e: "e = ''index_rate''"
    have "g' = hot_update g ''index_rate'' v" unfolding g' e by simp
    then show "flag_vc g' \<and> index_rate (gui_config g') = v_index_rate v"
      using assms(1) by (simp add: hot_update_hot)
  qed
  show ?thesis
    unfolding Event event.inject
    by (intro conjI) (fact fixed h1 h2 h3 h4 h5 h6 h7 h8 h9)+
qed


text \<open>
  A running session with the default parameters, as lines 700--835 leave it once the
  engine exists, and the threshold slider moved from \<open>-60\<close> to \<open>-30\<close>.
\<close>

theorem session_parameters_while_streaming_witness:
  "\<exists>g'. handle_event 48000 (\<lambda>t sr z. t * of_int sr / of_int z) ((GUI 8)\<lparr>gui_config := (GUIConfig 8)\<lparr>pth_path := ''model.pth'',
                                          index_path := ''model.index''\<rparr>,
          flag_vc := True, stream := True,
          rvc := Some \<lparr>rvc_key = 0, rvc_formant = 0, rvc_index_rate = 0\<rparr>\<rparr>) (Event ''threhold'')
          \<lparr>v_pth_path = ''model.pth'', v_index_path = ''model.index'', v_threhold = - 30,
          v_pitch = 0, v_formant = 0, v_index_rate = 0, v_rms_mix_rate = 0,
          v_block_time = 0.25, v_crossfade_length = 0.05, v_extra_time = 2.5, v_n_cpu = 4,
          v_I_noise_reduce = False, v_O_noise_reduce = False, v_use_pv = False,
          v_f0method = ''fcpe''\<rparr> = Inr g'
        \<and> block_time (gui_config g') = 0.25 \<and> crossfade_time (gui_config g') = 0.05
        \<and> extra_time (gui_config g') = 2.5 \<and> n_cpu (gui_config g') = 4
        \<and> flag_vc g' \<and> threhold (gui_config g') = - 30"
proof -
  let ?g = "((GUI 8)\<lparr>gui_config := (GUIConfig 8)\<lparr>pth_path := ''model.pth'',
                                          index_path := ''model.index''\<rparr>,
          flag_vc := True, stream := True,
          rvc := Some \<lparr>rvc_key = 0, rvc_formant = 0, rvc_index_rate = 0\<rparr>\<rparr>)"
  let ?v = "\<lparr>v_pth_path = ''model.pth'', v_index_path = ''model.index'', v_threhold = - 30,
          v_pitch = 0, v_formant = 0, v_index_rate = 0, v_rms_mix_rate = 0,
          v_block_time = 0.25, v_crossfade_length = 0.05, v_extra_time = 2.5, v_n_cpu = 4,
          v_I_noise_reduce = False, v_O_noise_reduce = False, v_use_pv = False,
          v_f0method = ''fcpe''\<rparr>"
  have f: "flag_vc ?g" by simp
  have c: "block_time (gui_config ?g) = 0.25" "crossfade_time (gui_config ?g) = 0.05"
    "extra_time (gui_config ?g) = 2.5" "n_cpu (gui_config ?g) = 4"
    by (simp_all add: GUI_def GUIConfig_def)
  let ?g' = "hot_update ?g ''threhold'' ?v"
  have h: "handle_event 48000 (\<lambda>t sr z. t * of_int sr / of_int z) ?g (Event ''threhold'') ?v = Inr ?g'"
    by (simp add: handle_event_streaming [OF f])
  note w = session_parameters_while_streaming [OF f h]
  have k: "block_time (gui_config ?g') = block_time (gui_config ?g)"
    "crossfade_time (gui_config ?g') = crossfade_time (gui_config ?g)"
    "extra_time (gui_config ?g') = extra_time (gui_config ?g)"
    "n_cpu (gui_config ?g') = n_cpu (gui_config ?g)"
    using w [THEN conjunct1] w [THEN conjunct2, THEN conjunct1]
      w [THEN conjunct2, THEN conjunct2, THEN conjunct1]
      w [THEN conjunct2, THEN conjunct2, THEN conjunct2, THEN conjunct1]
    by - assumption+
  have t: "Event ''threhold'' = Event ''threhold'' \<longrightarrow>
             flag_vc ?g' \<and> threhold (gui_config ?g') = v_threhold ?v"
    using w [THEN conjunct2, THEN conjunct2, THEN conjunct2, THEN conjunct2, THEN conjunct1] .
  from t have u: "flag_vc ?g'" "threhold (gui_config ?g') = - 30" by simp_all
  have "handle_event 48000 (\<lambda>t sr z. t * of_int sr / of_int z) ?g (Event ''threhold'') ?v = Inr ?g'
        \<and> block_time (gui_config ?g') = 0.25 \<and> crossfade_time (gui_config ?g') = 0.05
        \<and> extra_time (gui_config ?g') = 2.5 \<and> n_cpu (gui_config ?g') = 4
        \<and> flag_vc ?g' \<and> threhold (gui_config ?g') = - 30"
    using h k u unfolding c by (intro conjI)
  then show ?thesis by (rule exI [of _ ?g'])
qed

text \<open>
  The same event as the code handles it: the stream is still running and the threshold
  in use has changed; the block time has not.
\<close>

theorem threshold_changes_mid_stream:
  "flag_vc ((GUI 8)\<lparr>gui_config := (GUIConfig 8)\<lparr>pth_path := ''model.pth'',
                                          index_path := ''model.index''\<rparr>,
          flag_vc := True, stream := True,
          rvc := Some \<lparr>rvc_key = 0, rvc_formant = 0, rvc_index_rate = 0\<rparr>\<rparr>)
   \<and> threhold (gui_config ((GUI 8)\<lparr>gui_config := (GUIConfig 8)\<lparr>pth_path := ''model.pth'',
                                          index_path := ''model.index''\<rparr>,
          flag_vc := True, stream := True,
          rvc := Some \<lparr>rvc_key = 0, rvc_formant = 0, rvc_index_rate = 0\<rparr>\<rparr>)) = - 60
   \<and> (case handle_event 48000 (\<lambda>t sr z. t * of_int sr / of_int z) ((GUI 8)\<lparr>gui_config := (GUIConfig 8)\<lparr>pth_path := ''model.pth'',
                                          index_path := ''model.index''\<rparr>,
          flag_vc := True, stream := True,
          rvc := Some \<lparr>rvc_key = 0, rvc_formant = 0, rvc_index_rate = 0\<rparr>\<rparr>) (Event ''threhold'')
          \<lparr>v_pth_path = ''model.pth'', v_index_path = ''model.index'', v_threhold = - 30,
          v_pitch = 0, v_formant = 0, v_index_rate = 0, v_rms_mix_rate = 0,
          v_block_time = 0.25, v_crossfade_length = 0.05, v_extra_time = 2.5, v_n_cpu = 4,
          v_I_noise_reduce = False, v_O_noise_reduce = False, v_use_pv = False,
          v_f0method = ''fcpe''\<rparr> of
        Inl e \<Rightarrow> False
      | Inr g' \<Rightarrow> flag_vc g' \<and> stream g' \<and> threhold (gui_config g') = - 30
                  \<and> block_time (gui_config g') = 0.25)"
proof -
  let ?g = "((GUI 8)\<lparr>gui_config := (GUIConfig 8)\<lparr>pth_path := ''model.pth'',
                                          index_path := ''model.index''\<rparr>,
          flag_vc := True, stream := True,
          rvc := Some \<lparr>rvc_key = 0, rvc_formant = 0, rvc_index_rate = 0\<rparr>\<rparr>)"
  let ?v = "\<lparr>v_pth_path = ''model.pth'', v_index_path = ''model.index'', v_threhold = - 30,
          v_pitch = 0, v_formant = 0, v_index_rate = 0, v_rms_mix_rate = 0,
          v_block_time = 0.25, v_crossfade_length = 0.05, v_extra_time = 2.5, v_n_cpu = 4,
          v_I_noise_reduce = False, v_O_noise_reduce = False, v_use_pv = False,
          v_f0method = ''fcpe''\<rparr>"
  have f: "flag_vc ?g" by simp
  have h: "handle_event 48000 (\<lambda>t sr z. t * of_int sr / of_int z) ?g (Event ''threhold'') ?v
           = Inr (hot_update ?g ''threhold'' ?v)"
    by (simp add: handle_event_streaming [OF f])
  have t: "threhold (gui_config ?g) = - 60" by (simp add: GUI_def GUIConfig_def)
  have r: "flag_vc (hot_update ?g ''threhold'' ?v) \<and> stream (hot_update ?g ''threhold'' ?v)
           \<and> threhold (gui_config (hot_update ?g ''threhold'' ?v)) = - 30
           \<and> block_time (gui_config (hot_update ?g ''threhold'' ?v)) = 0.25"
    by (simp add: hot_update_hot GUI_def GUIConfig_def)
  show ?thesis
    unfolding h sum.case using f t r by (intro conjI) simp_all
qed

text \<open>
  A start event never starts a session: with valid paths \<^verbatim>\<open>set_values\<close> accepts the
  values and \<^verbatim>\<open>start_vc\<close> raises NameError at line 700, so \<^verbatim>\<open>flag_vc\<close> is never set by
  the control loop.
\<close>

lemma start_vc_raises: "start_vc sr fd g = Inl NameError"
  by (simp add: start_vc_def module_names_def)

lemma handle_event_start_raises:
  assumes "\<not> flag_vc g" and "set_values g v = Some g2"
  shows "handle_event sr fd g (Event ''start_vc'') v = Inl NameError"
  using assms by (simp add: handle_event_def start_vc_raises)

end
